theory Spec2Isabelle
  imports Main "HOL-Library.Multiset"
begin

section \<open>Data model of the scraper\<close>

text \<open>
  Python strings are modelled as \<^typ>\<open>string\<close>; a character stands for a code point
  below 256, which covers the non-breaking space \<open>\xa0\<close> the extractor replaces.
  Python integers are \<^typ>\<open>int\<close>.
\<close>

datatype error =
    ReError string
  | FetchError
  | AttributeError
  | TypeError
  | KeyError
  | IndexError
  | ValueError
  | JSONDecodeError
  | UnicodeDecodeError
  | OSError
  | HTTPError

text \<open>\<open>class HotelItem\<close>, a frozen dataclass with the fields url, title, price.\<close>

record HotelItem =
  url :: string
  title :: string
  price :: string

text \<open>\<open>class SearchConfig\<close>; \<open>recursive\<close> defaults to \<open>True\<close> and is read nowhere.\<close>

record SearchConfig =
  name :: string
  search_url :: string
  recursive :: bool

text \<open>\<open>class FilterConfig\<close>.\<close>

record FilterConfig =
  exclude_patterns :: "string list"

text \<open>
  A Python \<open>dict\<close> keeps its keys in insertion order: it is an association list with
  distinct keys. \<open>k in d\<close> is \<open>dict_contains\<close>, \<open>d[k] = v\<close> is \<open>dict_setitem\<close>
  (a present key keeps its position and takes the new value, a new key goes last).
\<close>

type_synonym ('k, 'v) dict = "('k \<times> 'v) list"

definition dict_contains :: "('k, 'v) dict \<Rightarrow> 'k \<Rightarrow> bool" where
  "dict_contains d k = (k \<in> set (map fst d))"

fun dict_setitem :: "('k, 'v) dict \<Rightarrow> 'k \<Rightarrow> 'v \<Rightarrow> ('k, 'v) dict" where
  "dict_setitem [] k v = [(k, v)]"
| "dict_setitem ((k', v') # d) k v =
     (if k' = k then (k, v) # d else (k', v') # dict_setitem d k v)"

definition dict_get :: "('k, 'v) dict \<Rightarrow> 'k \<Rightarrow> 'v option" where
  "dict_get d k = map_of d k"

text \<open>
  \<open>class DataStore(collections.UserDict)\<close>: the path of its file and the dictionary
  \<open>self.data\<close>. \<open>__init__\<close> starts with an empty dictionary.
\<close>

record DataStore =
  path :: string
  data :: "(string, HotelItem) dict"

definition DataStore_init :: "string \<Rightarrow> DataStore" where
  "DataStore_init p = \<lparr>path = p, data = []\<rparr>"

text \<open>\<open>class Result\<close>; both counters default to 0 and \<open>hotelitems\<close> to the empty list.\<close>

record Result =
  search_config :: SearchConfig
  num_already_in_datastore :: int
  num_excluded :: int
  hotelitems :: "HotelItem list"

definition Result_init :: "SearchConfig \<Rightarrow> Result" where
  "Result_init sc =
     \<lparr>search_config = sc, num_already_in_datastore = 0, num_excluded = 0, hotelitems = []\<rparr>"

section \<open>Markup extraction\<close>

text \<open>
  The parsed page is reduced to what \<open>get_hotelitems_from_soup\<close> reads of it: the
  \<open>div\<close> elements with \<open>data-testid="property-card"\<close> in document order, and of each
  card the first \<open>h3\<close> (if any) with its first \<open>a\<close> (if any, with its \<open>href\<close> if any)
  and the text of its first \<open>div\<close> (if any), and the texts of the elements selected by
  \<open>span[data-testid="price-and-discounted-price"]\<close>.
\<close>

datatype heading = Heading (h3_a: "string option option") (h3_div: "string option")

record card =
  card_h3 :: "heading option"
  card_prices :: "string list"

type_synonym soup = "card list"

text \<open>\<open>str.strip()\<close>: the characters below 256 for which \<open>str.isspace\<close> holds.\<close>

definition isspace :: "char \<Rightarrow> bool" where
  "isspace c = (c \<in> set [CHR 0x09, CHR 0x0A, CHR 0x0B, CHR 0x0C, CHR 0x0D, CHR 0x1C,
     CHR 0x1D, CHR 0x1E, CHR 0x1F, CHR 0x20, CHR 0x85, CHR 0xA0])"

definition strip :: "string \<Rightarrow> string" where
  "strip s = rev (dropWhile isspace (rev (dropWhile isspace s)))"

text \<open>\<open>.replace("\xa0", " ")\<close>\<close>

definition replace_nbsp :: "string \<Rightarrow> string" where
  "replace_nbsp s = map (\<lambda>c. if c = CHR 0xA0 then CHR 0x20 else c) s"

text \<open>
  The construction of one \<open>HotelItem\<close>: the keyword arguments are evaluated in the
  order url, title, price, and the first failing one raises. \<open>find\<close> gives \<open>None\<close> for
  an absent element, so \<open>None.find\<close> and \<open>None.text\<close> raise AttributeError,
  \<open>None["href"]\<close> raises TypeError, an anchor without \<open>href\<close> raises KeyError and
  \<open>[0]\<close> of an empty selection raises IndexError.
\<close>

definition hotelitem_of_card :: "card \<Rightarrow> error + HotelItem" where
  "hotelitem_of_card c =
     (case card_h3 c of
        None \<Rightarrow> Inl AttributeError
      | Some h \<Rightarrow>
          (case h3_a h of
             None \<Rightarrow> Inl TypeError
           | Some None \<Rightarrow> Inl KeyError
           | Some (Some u) \<Rightarrow>
               (case h3_div h of
                  None \<Rightarrow> Inl AttributeError
                | Some t \<Rightarrow>
                    (case card_prices c of
                       [] \<Rightarrow> Inl IndexError
                     | p # _ \<Rightarrow>
                         Inr \<lparr>url = u, title = strip t, price = strip (replace_nbsp p)\<rparr>))))"

text \<open>
  An asynchronous generator is a lazy sequence: it stops, yields an item and goes on,
  or raises. What it has yielded before it raises has reached its consumer.
\<close>

datatype 'a gen = Stop | Yield 'a "'a gen" | Raise error

text \<open>\<open>get_hotelitems_from_soup(soup, url)\<close>; the url is only logged.\<close>

fun get_hotelitems_from_soup :: "soup \<Rightarrow> string \<Rightarrow> HotelItem gen" where
  "get_hotelitems_from_soup [] u = Stop"
| "get_hotelitems_from_soup (c # cs) u =
     (case hotelitem_of_card c of
        Inl e \<Rightarrow> Raise e
      | Inr x \<Rightarrow> Yield x (get_hotelitems_from_soup cs u))"

text \<open>\<open>achain(*iterables)\<close>: the iterables one after the other.\<close>

fun gen_then :: "'a gen \<Rightarrow> 'a gen \<Rightarrow> 'a gen" where
  "gen_then Stop h = h"
| "gen_then (Yield x g) h = Yield x (gen_then g h)"
| "gen_then (Raise e) h = Raise e"

fun achain :: "'a gen list \<Rightarrow> 'a gen" where
  "achain [] = Stop"
| "achain (g # gs) = gen_then g (achain gs)"

section \<open>Discovery\<close>

text \<open>
  What \<open>get_new_hotelitems\<close> takes from outside the repository: \<open>re.compile(pattern,
  re.IGNORECASE)\<close>, which raises \<open>re.error\<close> on an invalid pattern,
  \<open>pattern.search(title)\<close> read as a truth value, and \<open>get_soup\<close>, the fetch and
  parse of a page, which may fail.
\<close>

record 'p env =
  re_compile :: "string \<Rightarrow> error + 'p"
  re_search :: "'p \<Rightarrow> string \<Rightarrow> bool"
  get_soup :: "string \<Rightarrow> error + soup"

text \<open>The list comprehension compiling the patterns, in order.\<close>

fun compile_patterns :: "(string \<Rightarrow> error + 'p) \<Rightarrow> string list \<Rightarrow> error + 'p list" where
  "compile_patterns rc [] = Inr []"
| "compile_patterns rc (s # ss) =
     (case rc s of
        Inl e \<Rightarrow> Inl e
      | Inr p \<Rightarrow> (case compile_patterns rc ss of Inl e \<Rightarrow> Inl e | Inr ps \<Rightarrow> Inr (p # ps)))"

text \<open>
  The \<open>for pattern in exclude_patterns\<close> loop with its \<open>break\<close>: the pattern it
  stopped at (the one the log line names), or \<open>None\<close> when it ran through.
  \<open>exclude_hotelitem\<close> is whether it stopped.
\<close>

fun first_match :: "('p \<Rightarrow> string \<Rightarrow> bool) \<Rightarrow> 'p list \<Rightarrow> string \<Rightarrow> 'p option" where
  "first_match rs [] t = None"
| "first_match rs (p # ps) t = (if rs p t then Some p else first_match rs ps t)"

definition exclude_hotelitem :: "('p \<Rightarrow> string \<Rightarrow> bool) \<Rightarrow> 'p list \<Rightarrow> string \<Rightarrow> bool" where
  "exclude_hotelitem rs ps t = (first_match rs ps t \<noteq> None)"

text \<open>The body of the \<open>async for\<close> loop, on the result and the data store it mutates.\<close>

definition classify ::
  "('p \<Rightarrow> string \<Rightarrow> bool) \<Rightarrow> 'p list \<Rightarrow> HotelItem \<Rightarrow> Result \<times> DataStore \<Rightarrow> Result \<times> DataStore" where
  "classify rs ps x = (\<lambda>(r, ds).
     if dict_contains (data ds) (title x) then
       (r\<lparr>num_already_in_datastore := num_already_in_datastore r + 1\<rparr>, ds)
     else
       let ds' = ds\<lparr>data := dict_setitem (data ds) (title x) x\<rparr> in
       if exclude_hotelitem rs ps (title x) then
         (r\<lparr>num_excluded := num_excluded r + 1\<rparr>, ds')
       else
         (r\<lparr>hotelitems := hotelitems r @ [x]\<rparr>, ds'))"

text \<open>
  The loop over the generator. An exception of the generator leaves the loop and the
  function; the data store keeps what the loop has put into it.
\<close>

fun consume ::
  "('p \<Rightarrow> string \<Rightarrow> bool) \<Rightarrow> 'p list \<Rightarrow> HotelItem gen \<Rightarrow> Result \<times> DataStore
     \<Rightarrow> (error + Result) \<times> DataStore" where
  "consume rs ps Stop (r, ds) = (Inr r, ds)"
| "consume rs ps (Raise e) (r, ds) = (Inl e, ds)"
| "consume rs ps (Yield x g) (r, ds) = consume rs ps g (classify rs ps x (r, ds))"

text \<open>
  \<open>get_new_hotelitems(search_config, filter_config, data_store)\<close>: the value returned
  or the exception raised, and the data store afterwards.
\<close>

definition get_new_hotelitems ::
  "'p env \<Rightarrow> SearchConfig \<Rightarrow> FilterConfig \<Rightarrow> DataStore \<Rightarrow> (error + Result) \<times> DataStore" where
  "get_new_hotelitems E sc fc ds =
     (case compile_patterns (re_compile E) (exclude_patterns fc) of
        Inl e \<Rightarrow> (Inl e, ds)
      | Inr ps \<Rightarrow>
          (case get_soup E (search_url sc) of
             Inl e \<Rightarrow> (Inl e, ds)
           | Inr sp \<Rightarrow>
               consume (re_search E) ps
                 (achain [get_hotelitems_from_soup sp (search_url sc)])
                 (Result_init sc, ds)))"

text \<open>What a generator yields before it stops or raises, and the exception it ends with.\<close>

fun yielded :: "'a gen \<Rightarrow> 'a list" where
  "yielded Stop = []"
| "yielded (Yield x g) = x # yielded g"
| "yielded (Raise e) = []"

fun raised :: "'a gen \<Rightarrow> error option" where
  "raised Stop = None"
| "raised (Yield x g) = raised g"
| "raised (Raise e) = Some e"

section \<open>The data store and its file\<close>

text \<open>
  The file of the store holds JSON text. The text is modelled by the value it denotes:
  a string, an object (its members in the order of the text) or any other value.
  The bytes of a file are no text in the encoding of \<open>open\<close>, text that is not JSON,
  or JSON.
\<close>

datatype json = JStr string | JObj "(string \<times> json) list" | JOther

datatype content = NotText | NotJSON | JSON json

text \<open>
  The file system, as \<open>open(path)\<close> and \<open>open(path, "w")\<close> see it: the file at a
  path, if there is one; whether the system lets the path be opened for reading
  (where there is no file, whether it answers that there is none, which is
  FileNotFoundError, rather than with another OSError); and whether it lets the path
  be opened for writing, the file created where there is none (it does not in a
  directory that is missing or may not be written to).
\<close>

record fs =
  file_at :: "string \<Rightarrow> content option"
  readable :: "string \<Rightarrow> bool"
  writable :: "string \<Rightarrow> bool"

text \<open>\<open>json.load\<close> of an object: a dictionary, a repeated member name taking its last value.\<close>

definition dict_of_pairs :: "('k \<times> 'v) list \<Rightarrow> ('k, 'v) dict" where
  "dict_of_pairs kvs = fold (\<lambda>(k, v) d. dict_setitem d k v) kvs []"

text \<open>
  \<open>HotelItem(**value)\<close>: TypeError unless \<open>value\<close> is a mapping with exactly the keys
  url, title and price. The dataclass does not check the types of the values; a value
  that is not a string would give an item outside the declared field types, which this
  model does not represent (\<open>Unrepresented\<close>).
\<close>

datatype 'a loaded = Loaded 'a | Raised error | Unrepresented

definition HotelItem_of_json :: "json \<Rightarrow> HotelItem loaded" where
  "HotelItem_of_json v =
     (case v of
        JObj kvs \<Rightarrow>
          (let d = dict_of_pairs kvs in
           if set (map fst d) = {''url'', ''title'', ''price''} then
             (case (dict_get d ''url'', dict_get d ''title'', dict_get d ''price'') of
                (Some (JStr u), Some (JStr t), Some (JStr p)) \<Rightarrow>
                  Loaded \<lparr>url = u, title = t, price = p\<rparr>
              | _ \<Rightarrow> Unrepresented)
           else Raised TypeError)
      | _ \<Rightarrow> Raised TypeError)"

text \<open>The dictionary comprehension of \<open>open\<close>, member by member.\<close>

fun load_items :: "(string \<times> json) list \<Rightarrow> (string, HotelItem) dict loaded" where
  "load_items [] = Loaded []"
| "load_items ((k, v) # kvs) =
     (case HotelItem_of_json v of
        Raised e \<Rightarrow> Raised e
      | Unrepresented \<Rightarrow>
          (case load_items kvs of Raised e \<Rightarrow> Raised e | _ \<Rightarrow> Unrepresented)
      | Loaded x \<Rightarrow>
          (case load_items kvs of
             Raised e \<Rightarrow> Raised e
           | Unrepresented \<Rightarrow> Unrepresented
           | Loaded d \<Rightarrow> Loaded ((k, x) # d)))"

text \<open>
  \<open>DataStore.open\<close>: FileNotFoundError is caught and leaves \<open>self.data\<close> as it is;
  every other exception propagates. \<open>json.load\<close> reads the whole file first
  (UnicodeDecodeError), then parses it (JSONDecodeError); \<open>.items()\<close> of a value that
  is no object raises AttributeError.
\<close>

definition DataStore_open :: "fs \<Rightarrow> DataStore \<Rightarrow> DataStore loaded" where
  "DataStore_open f ds =
     (if \<not> readable f (path ds) then Raised OSError
      else
        (case file_at f (path ds) of
           None \<Rightarrow> Loaded ds
         | Some NotText \<Rightarrow> Raised UnicodeDecodeError
         | Some NotJSON \<Rightarrow> Raised JSONDecodeError
         | Some (JSON j) \<Rightarrow>
             (case j of
                JObj kvs \<Rightarrow>
                  (case load_items (dict_of_pairs kvs) of
                     Raised e \<Rightarrow> Raised e
                   | Unrepresented \<Rightarrow> Unrepresented
                   | Loaded d \<Rightarrow> Loaded (ds\<lparr>data := d\<rparr>))
              | _ \<Rightarrow> Raised AttributeError)))"

text \<open>\<open>dataclasses.asdict\<close> of a HotelItem, as \<open>DataclassesJSONEncoder.default\<close> calls it.\<close>

definition asdict :: "HotelItem \<Rightarrow> json" where
  "asdict x = JObj [(''url'', JStr (url x)), (''title'', JStr (title x)), (''price'', JStr (price x))]"

definition json_of_data :: "(string, HotelItem) dict \<Rightarrow> json" where
  "json_of_data d = JObj (map (\<lambda>(k, x). (k, asdict x)) d)"

text \<open>
  \<open>DataStore.close\<close>: \<open>open(self.path, "w")\<close>, which creates or truncates the file,
  and \<open>json.dump\<close> of \<open>self.data\<close>.
\<close>

definition DataStore_close :: "fs \<Rightarrow> DataStore \<Rightarrow> error + fs" where
  "DataStore_close f ds =
     (if \<not> writable f (path ds) then Inl OSError
      else Inr (f\<lparr>file_at := (file_at f)(path ds \<mapsto> JSON (json_of_data (data ds)))\<rparr>))"

section \<open>Notifications\<close>

text \<open>
  The provider settings come from the JSON configuration: the values the declared
  fields of \<open>PushoverConfig\<close> admit are strings and lists of strings.
\<close>

datatype cfg_value = CStr string | CList "string list"

record PushoverConfig =
  token :: cfg_value
  user :: cfg_value
  device :: cfg_value

text \<open>
  \<open>PushoverConfig(**config_dict)\<close>: TypeError for a key that is no field and for a
  missing \<open>token\<close> or \<open>user\<close>; \<open>device\<close> defaults to the empty list.
\<close>

definition PushoverConfig_of_dict :: "(string, cfg_value) dict \<Rightarrow> error + PushoverConfig" where
  "PushoverConfig_of_dict d =
     (if \<not> set (map fst d) \<subseteq> {''token'', ''user'', ''device''} then Inl TypeError
      else
        (case dict_get d ''token'' of
           None \<Rightarrow> Inl TypeError
         | Some t \<Rightarrow>
             (case dict_get d ''user'' of
                None \<Rightarrow> Inl TypeError
              | Some u \<Rightarrow>
                  Inr \<lparr>token = t, user = u,
                       device = (case dict_get d ''device'' of None \<Rightarrow> CList [] | Some v \<Rightarrow> v)\<rparr>)))"

text \<open>\<open>",".join(value)\<close>\<close>

fun join_comma :: "string list \<Rightarrow> string" where
  "join_comma [] = []"
| "join_comma [s] = s"
| "join_comma (s # t # ss) = s @ '','' @ join_comma (t # ss)"

text \<open>One round of the loop of \<open>to_params\<close>: an empty string or list is skipped.\<close>

definition add_param :: "string \<Rightarrow> cfg_value \<Rightarrow> (string, string) dict \<Rightarrow> (string, string) dict" where
  "add_param k v params =
     (case v of
        CStr s \<Rightarrow> (if s = [] then params else dict_setitem params k s)
      | CList l \<Rightarrow> (if l = [] then params else dict_setitem params k (join_comma l)))"

definition to_params :: "PushoverConfig \<Rightarrow> (string, string) dict" where
  "to_params c =
     add_param ''device'' (device c) (add_param ''user'' (user c) (add_param ''token'' (token c) []))"

text \<open>\<open>str\<close> of a natural number, as the f-string prints \<open>len(result.hotelitems)\<close>.\<close>

fun str_nat :: "nat \<Rightarrow> string" where
  "str_nat n =
     (if n < 10 then [''0123456789'' ! n] else str_nat (n div 10) @ [''0123456789'' ! (n mod 10)])"

declare str_nat.simps [simp del]

text \<open>The message of \<open>send_notification\<close> for a result whose first new item is \<open>x\<close>.\<close>

definition message :: "Result \<Rightarrow> HotelItem \<Rightarrow> string" where
  "message r x =
     ''<b>Found '' @ str_nat (length (hotelitems r)) @ '' new ad''
       @ (if length (hotelitems r) = 1 then [] else ''s'')
       @ '' for '' @ name (search_config r) @ ''</b>''
       @ [CHR 0x0A]
       @ ''<a href='' @ [CHR 0x22] @ url x @ [CHR 0x22] @ ''>'' @ title x @ ''</a>''"

text \<open>
  \<open>send_notification\<close>: the exception it raises, if any, and the requests it has
  handed to \<open>session.post\<close>. \<open>result.hotelitems[0]\<close> raises IndexError on an empty
  list, before the post; \<open>post\<close> stands for \<open>session.post\<close> followed by
  \<open>raise_for_status\<close>: the exception of a failed transport or of a response without
  a success status, if any.
\<close>

definition send_notification ::
  "((string, string) dict \<Rightarrow> error option) \<Rightarrow> PushoverConfig \<Rightarrow> Result
     \<Rightarrow> error option \<times> (string, string) dict list" where
  "send_notification post config r =
     (case hotelitems r of
        [] \<Rightarrow> (Some IndexError, [])
      | x # _ \<Rightarrow>
          (let params = to_params config;
               params = dict_setitem params ''html'' ''1'';
               params = dict_setitem params ''message'' (message r x);
               params = dict_setitem params ''url'' (search_url (search_config r));
               params = dict_setitem params ''url_title'' ''showing one stay, to show all click here''
           in (post params, [params])))"

text \<open>The first exception among the outcomes of the tasks, in the order of the tasks.\<close>

fun first_error :: "(error option \<times> 'a) list \<Rightarrow> error option" where
  "first_error [] = None"
| "first_error ((Some e, _) # os) = Some e"
| "first_error ((None, _) # os) = first_error os"

text \<open>
  \<open>send_notifications\<close>: the exception it raises, if any, and the requests handed to
  \<open>session.post\<close>, in the order of their tasks. The tasks run concurrently under
  \<open>asyncio.gather\<close>, each up to its post before any response is awaited; the order
  of the list stands for no order in time.
\<close>

definition send_notifications ::
  "((string, string) dict \<Rightarrow> error option) \<Rightarrow> Result list \<Rightarrow> (string, cfg_value) dict
     \<Rightarrow> error option \<times> (string, string) dict list" where
  "send_notifications post results config_dict =
     (case PushoverConfig_of_dict config_dict of
        Inl e \<Rightarrow> (Some ValueError, [])
      | Inr config \<Rightarrow>
          (let tasks = map (send_notification post config)
                         (filter (\<lambda>r. hotelitems r \<noteq> []) results)
           in (first_error tasks, concat (map snd tasks))))"

section \<open>Example inputs\<close>

text \<open>
  An instance of the regular expression engine for patterns without metacharacters:
  such a pattern is searched as text, letters compared without case (the letters of
  ASCII and, among the code points below 256, the accented capitals \<open>\xc0\<close> to
  \<open>\xde\<close> except the multiplication sign, each 32 below its small letter).
\<close>

definition lower :: "char \<Rightarrow> char" where
  "lower c =
     (case map_of (zip (''ABCDEFGHIJKLMNOPQRSTUVWXYZ'' @ [
        CHR 0xC0, CHR 0xC1, CHR 0xC2, CHR 0xC3, CHR 0xC4, CHR 0xC5, CHR 0xC6, CHR 0xC7,
        CHR 0xC8, CHR 0xC9, CHR 0xCA, CHR 0xCB, CHR 0xCC, CHR 0xCD, CHR 0xCE, CHR 0xCF,
        CHR 0xD0, CHR 0xD1, CHR 0xD2, CHR 0xD3, CHR 0xD4, CHR 0xD5, CHR 0xD6, CHR 0xD8,
        CHR 0xD9, CHR 0xDA, CHR 0xDB, CHR 0xDC, CHR 0xDD, CHR 0xDE])
                       (''abcdefghijklmnopqrstuvwxyz'' @ [
        CHR 0xE0, CHR 0xE1, CHR 0xE2, CHR 0xE3, CHR 0xE4, CHR 0xE5, CHR 0xE6, CHR 0xE7,
        CHR 0xE8, CHR 0xE9, CHR 0xEA, CHR 0xEB, CHR 0xEC, CHR 0xED, CHR 0xEE, CHR 0xEF,
        CHR 0xF0, CHR 0xF1, CHR 0xF2, CHR 0xF3, CHR 0xF4, CHR 0xF5, CHR 0xF6, CHR 0xF8,
        CHR 0xF9, CHR 0xFA, CHR 0xFB, CHR 0xFC, CHR 0xFD, CHR 0xFE])) c of
        None \<Rightarrow> c
      | Some d \<Rightarrow> d)"

fun starts_with :: "string \<Rightarrow> string \<Rightarrow> bool" where
  "starts_with [] t = True"
| "starts_with (c # p) [] = False"
| "starts_with (c # p) (d # t) = (lower c = lower d \<and> starts_with p t)"

fun literal_search :: "string \<Rightarrow> string \<Rightarrow> bool" where
  "literal_search p [] = (p = [])"
| "literal_search p (d # t) = (starts_with p (d # t) \<or> literal_search p t)"

definition example_page :: soup where
  "example_page =
     [\<lparr>card_h3 = Some (Heading (Some (Some ''/hotel/cozy-loft'')) (Some '' Cozy Loft '')),
       card_prices = [''$'' @ [CHR 0xA0] @ ''100'']\<rparr>,
      \<lparr>card_h3 = Some (Heading (Some (Some ''/hotel/studio-flat'')) (Some ''Studio Flat'')),
       card_prices = [''$80'', ''$95'']\<rparr>]"

definition example_env :: "string env" where
  "example_env = \<lparr>re_compile = Inr, re_search = literal_search, get_soup = (\<lambda>u. Inr example_page)\<rparr>"

definition example_search :: SearchConfig where
  "example_search = \<lparr>name = ''city'', search_url = ''https://example.org/search'', recursive = True\<rparr>"

definition cozy_loft :: HotelItem where
  "cozy_loft = \<lparr>url = ''/hotel/cozy-loft'', title = ''Cozy Loft'', price = ''$ 100''\<rparr>"

definition studio_flat :: HotelItem where
  "studio_flat = \<lparr>url = ''/hotel/studio-flat'', title = ''Studio Flat'', price = ''$80''\<rparr>"

definition example_filter :: FilterConfig where
  "example_filter = \<lparr>exclude_patterns = [''loft'']\<rparr>"

definition first_result :: Result where
  "first_result = \<lparr>search_config = example_search, num_already_in_datastore = 0,
     num_excluded = 1, hotelitems = [studio_flat]\<rparr>"

definition first_store :: DataStore where
  "first_store = \<lparr>path = ''store.json'',
     data = [(''Cozy Loft'', cozy_loft), (''Studio Flat'', studio_flat)]\<rparr>"

text \<open>Filters of two patterns, in both orders, and the run without patterns.\<close>

definition villa_loft_filter :: FilterConfig where
  "villa_loft_filter = \<lparr>exclude_patterns = [''villa'', ''loft'']\<rparr>"

definition loft_villa_filter :: FilterConfig where
  "loft_villa_filter = \<lparr>exclude_patterns = [''loft'', ''villa'']\<rparr>"

definition no_filter :: FilterConfig where
  "no_filter = \<lparr>exclude_patterns = []\<rparr>"

definition unfiltered_result :: Result where
  "unfiltered_result = \<lparr>search_config = example_search, num_already_in_datastore = 0,
     num_excluded = 0, hotelitems = [cozy_loft, studio_flat]\<rparr>"

text \<open>A page with two cards of the same title, and the run on it without patterns.\<close>

definition cozy_loft_again :: HotelItem where
  "cozy_loft_again = \<lparr>url = ''/hotel/cozy-loft-2'', title = ''Cozy Loft'', price = ''$120''\<rparr>"

definition twin_page :: soup where
  "twin_page =
     [\<lparr>card_h3 = Some (Heading (Some (Some ''/hotel/cozy-loft'')) (Some '' Cozy Loft '')),
       card_prices = [''$'' @ [CHR 0xA0] @ ''100'']\<rparr>,
      \<lparr>card_h3 = Some (Heading (Some (Some ''/hotel/cozy-loft-2'')) (Some ''Cozy Loft'')),
       card_prices = [''$120'']\<rparr>]"

definition twin_env :: "string env" where
  "twin_env = \<lparr>re_compile = Inr, re_search = literal_search, get_soup = (\<lambda>u. Inr twin_page)\<rparr>"

definition twin_result :: Result where
  "twin_result = \<lparr>search_config = example_search, num_already_in_datastore = 1,
     num_excluded = 0, hotelitems = [cozy_loft]\<rparr>"

definition twin_store :: DataStore where
  "twin_store = \<lparr>path = ''store.json'', data = [(''Cozy Loft'', cozy_loft)]\<rparr>"

text \<open>File systems without a file and with a file that is not JSON at the path of the store.\<close>

definition empty_fs :: fs where
  "empty_fs = \<lparr>file_at = (\<lambda>p. None), readable = (\<lambda>p. True), writable = (\<lambda>p. True)\<rparr>"

definition stale_fs :: fs where
  "stale_fs = \<lparr>file_at = (\<lambda>p. if p = ''store.json'' then Some NotJSON else None),
     readable = (\<lambda>p. True), writable = (\<lambda>p. True)\<rparr>"

definition first_store_json :: json where
  "first_store_json = JObj
     [(''Cozy Loft'', JObj [(''url'', JStr ''/hotel/cozy-loft''), (''title'', JStr ''Cozy Loft''),
                            (''price'', JStr ''$ 100'')]),
      (''Studio Flat'', JObj [(''url'', JStr ''/hotel/studio-flat''), (''title'', JStr ''Studio Flat''),
                              (''price'', JStr ''$80'')])]"

text \<open>Provider settings with and without a token, a transport that succeeds, a message.\<close>

definition valid_config :: "(string, cfg_value) dict" where
  "valid_config = [(''token'', CStr ''tok''), (''user'', CStr ''usr'')]"

definition no_token_config :: "(string, cfg_value) dict" where
  "no_token_config = [(''user'', CStr ''usr''), (''device'', CList [''phone''])]"

definition post_ok :: "(string, string) dict \<Rightarrow> error option" where
  "post_ok params = None"

definition two_ads_message :: string where
  "two_ads_message =
     ''<b>Found 2 new ads for city</b>'' @ [CHR 0x0A]
       @ ''<a href='' @ [CHR 0x22] @ ''/hotel/cozy-loft'' @ [CHR 0x22] @ ''>Cozy Loft</a>''"

text \<open>A page whose second card has no price element.\<close>

definition studio_card :: card where
  "studio_card =
     \<lparr>card_h3 = Some (Heading (Some (Some ''/hotel/studio-flat'')) (Some ''Studio Flat'')),
      card_prices = [''$80'', ''$95'']\<rparr>"

definition priceless_card :: card where
  "priceless_card =
     \<lparr>card_h3 = Some (Heading (Some (Some ''/hotel/cozy-loft'')) (Some '' Cozy Loft '')),
      card_prices = []\<rparr>"

definition broken_page :: soup where
  "broken_page = [studio_card, priceless_card]"

definition studio_store :: DataStore where
  "studio_store = \<lparr>path = ''store.json'', data = [(''Studio Flat'', studio_flat)]\<rparr>"

definition broken_env :: "string env" where
  "broken_env = \<lparr>re_compile = Inr, re_search = literal_search, get_soup = (\<lambda>u. Inr broken_page)\<rparr>"

section \<open>The loop as a fold over the yielded items\<close>

lemma gen_then_Stop: "gen_then g Stop = g"
  by (induction g) auto

lemma consume_fold:
  "consume rs ps g s =
     (case raised g of
        None \<Rightarrow> Inr (fst (fold (classify rs ps) (yielded g) s))
      | Some e \<Rightarrow> Inl e,
      snd (fold (classify rs ps) (yielded g) s))"
proof (induction g arbitrary: s)
  case Stop
  show ?case by (cases s) simp
next
  case (Yield x g)
  obtain r ds where s: "s = (r, ds)" by (cases s)
  show ?case unfolding s by (simp add: Yield.IH split: option.splits)
next
  case (Raise e)
  show ?case by (cases s) simp
qed

lemma classify_already:
  "dict_contains (data ds) (title x) \<Longrightarrow>
     classify rs ps x (r, ds) = (r\<lparr>num_already_in_datastore := num_already_in_datastore r + 1\<rparr>, ds)"
  by (simp add: classify_def)

lemma classify_excluded:
  "\<not> dict_contains (data ds) (title x) \<Longrightarrow> exclude_hotelitem rs ps (title x) \<Longrightarrow>
     classify rs ps x (r, ds) =
       (r\<lparr>num_excluded := num_excluded r + 1\<rparr>, ds\<lparr>data := dict_setitem (data ds) (title x) x\<rparr>)"
  by (simp add: classify_def)

lemma classify_new:
  "\<not> dict_contains (data ds) (title x) \<Longrightarrow> \<not> exclude_hotelitem rs ps (title x) \<Longrightarrow>
     classify rs ps x (r, ds) =
       (r\<lparr>hotelitems := hotelitems r @ [x]\<rparr>, ds\<lparr>data := dict_setitem (data ds) (title x) x\<rparr>)"
  by (simp add: classify_def)

lemma yielded_soup_length:
  "raised (get_hotelitems_from_soup sp u) = None \<Longrightarrow>
     length (yielded (get_hotelitems_from_soup sp u)) = length sp"
  by (induction sp) (auto split: sum.splits)

text \<open>A run that returns has compiled every pattern and consumed the whole generator.\<close>

lemma get_new_hotelitems_returns:
  assumes "get_new_hotelitems E sc fc ds = (Inr r, ds')"
  obtains ps sp where
    "compile_patterns (re_compile E) (exclude_patterns fc) = Inr ps"
    "get_soup E (search_url sc) = Inr sp"
    "raised (get_hotelitems_from_soup sp (search_url sc)) = None"
    "fold (classify (re_search E) ps) (yielded (get_hotelitems_from_soup sp (search_url sc)))
       (Result_init sc, ds) = (r, ds')"
proof -
  obtain ps where ps: "compile_patterns (re_compile E) (exclude_patterns fc) = Inr ps"
    using assms by (auto simp: get_new_hotelitems_def split: sum.splits)
  obtain sp where sp: "get_soup E (search_url sc) = Inr sp"
    using assms ps by (auto simp: get_new_hotelitems_def split: sum.splits)
  let ?g = "get_hotelitems_from_soup sp (search_url sc)"
  have c: "consume (re_search E) ps ?g (Result_init sc, ds) = (Inr r, ds')"
    using assms ps sp by (simp add: get_new_hotelitems_def gen_then_Stop)
  have nr: "raised ?g = None"
    using c by (auto simp: consume_fold split: option.splits)
  have "fold (classify (re_search E) ps) (yielded ?g) (Result_init sc, ds) = (r, ds')"
    using c nr by (simp add: consume_fold prod_eq_iff)
  with ps sp nr show thesis by (rule that)
qed

section \<open>The example run\<close>

lemma run_two_items:
  assumes pat: "exclude_patterns fc = [s]"
    and comp: "re_compile E s = Inr p"
    and m1: "re_search E p (title x1)"
    and m2: "\<not> re_search E p (title x2)"
    and page: "get_soup E (search_url sc) = Inr sp"
    and items: "get_hotelitems_from_soup sp (search_url sc) = Yield x1 (Yield x2 Stop)"
    and diff: "title x1 \<noteq> title x2"
    and empty: "data ds = []"
  shows "get_new_hotelitems E sc fc ds =
     (Inr \<lparr>search_config = sc, num_already_in_datastore = 0, num_excluded = 1, hotelitems = [x2]\<rparr>,
      ds\<lparr>data := [(title x1, x1), (title x2, x2)]\<rparr>)"
proof -
  let ?rs = "re_search E"
  let ?r1 = "(Result_init sc)\<lparr>num_excluded := 1\<rparr>"
  let ?d1 = "ds\<lparr>data := [(title x1, x1)]\<rparr>"
  have c: "compile_patterns (re_compile E) (exclude_patterns fc) = Inr [p]"
    by (simp add: pat comp)
  have s1: "classify ?rs [p] x1 (Result_init sc, ds) = (?r1, ?d1)"
    using classify_excluded[of ds x1 ?rs "[p]" "Result_init sc"]
    by (simp add: empty m1 dict_contains_def exclude_hotelitem_def Result_init_def)
  have s2: "classify ?rs [p] x2 (?r1, ?d1) =
      ((Result_init sc)\<lparr>num_excluded := 1, hotelitems := [x2]\<rparr>,
       ds\<lparr>data := [(title x1, x1), (title x2, x2)]\<rparr>)"
    using classify_new[of ?d1 x2 ?rs "[p]" ?r1]
    by (simp add: diff diff[symmetric] m2 dict_contains_def exclude_hotelitem_def Result_init_def)
  have "get_new_hotelitems E sc fc ds =
      consume ?rs [p] (Yield x1 (Yield x2 Stop)) (Result_init sc, ds)"
    by (simp add: get_new_hotelitems_def c page items gen_then_Stop)
  also have "\<dots> = (Inr ((Result_init sc)\<lparr>num_excluded := 1, hotelitems := [x2]\<rparr>),
       ds\<lparr>data := [(title x1, x1), (title x2, x2)]\<rparr>)"
    by (simp only: consume.simps s1 s2)
  finally show ?thesis by (simp add: Result_init_def)
qed

lemma example_page_items:
  "get_hotelitems_from_soup example_page u = Yield cozy_loft (Yield studio_flat Stop)"
  by (simp add: example_page_def hotelitem_of_card_def strip_def isspace_def replace_nbsp_def
      cozy_loft_def studio_flat_def)

lemma literal_search_loft:
  "literal_search ''loft'' ''Cozy Loft''" "\<not> literal_search ''loft'' ''Studio Flat''"
  by (simp_all add: lower_def)

lemma example_env_loft:
  "re_compile example_env ''loft'' = Inr ''loft''"
  "re_search example_env ''loft'' ''Cozy Loft''"
  "\<not> re_search example_env ''loft'' ''Studio Flat''"
  "get_soup example_env (search_url example_search) = Inr example_page"
  by (simp_all add: example_env_def literal_search_loft del: literal_search.simps)

lemma example_titles:
  "title cozy_loft = ''Cozy Loft''" "title studio_flat = ''Studio Flat''"
  by (simp_all add: cozy_loft_def studio_flat_def)

lemma example_first_run:
  "get_new_hotelitems example_env example_search example_filter (DataStore_init ''store.json'')
     = (Inr first_result, first_store)"
proof -
  have h1: "exclude_patterns example_filter = [''loft'']" by (simp add: example_filter_def)
  have h3: "re_search example_env ''loft'' (title cozy_loft)"
    by (simp only: example_titles example_env_loft)
  have h4: "\<not> re_search example_env ''loft'' (title studio_flat)"
    by (simp only: example_titles example_env_loft) simp
  have h7: "title cozy_loft \<noteq> title studio_flat" by (simp add: example_titles)
  have h8: "data (DataStore_init ''store.json'') = []" by (simp add: DataStore_init_def)
  from run_two_items[OF h1 example_env_loft(1) h3 h4 example_env_loft(4) example_page_items h7 h8]
  show ?thesis by (simp add: DataStore_init_def first_result_def first_store_def example_titles)
qed

section \<open>Properties of discovery\<close>

lemma dict_setitem_new_length:
  "\<not> dict_contains d k \<Longrightarrow> length (dict_setitem d k v) = Suc (length d)"
  by (induction d) (auto simp: dict_contains_def)

lemma classify_count:
  "classify rs ps x (r, ds) = (r', ds') \<Longrightarrow>
     num_already_in_datastore r' + num_excluded r' + int (length (hotelitems r'))
       = num_already_in_datastore r + num_excluded r + int (length (hotelitems r)) + 1
   \<and> int (length (data ds')) - num_excluded r' - int (length (hotelitems r'))
       = int (length (data ds)) - num_excluded r - int (length (hotelitems r))"
  by (auto simp: classify_def Let_def dict_setitem_new_length split: if_splits)

lemma fold_classify_count:
  "fold (classify rs ps) xs (r, ds) = (r', ds') \<Longrightarrow>
     num_already_in_datastore r' + num_excluded r' + int (length (hotelitems r'))
       = num_already_in_datastore r + num_excluded r + int (length (hotelitems r)) + int (length xs)
   \<and> int (length (data ds')) - num_excluded r' - int (length (hotelitems r'))
       = int (length (data ds)) - num_excluded r - int (length (hotelitems r))"
proof (induction xs arbitrary: r ds)
  case Nil
  then show ?case by simp
next
  case (Cons x xs)
  obtain r1 ds1 where s: "classify rs ps x (r, ds) = (r1, ds1)" by fastforce
  from Cons.prems s have "fold (classify rs ps) xs (r1, ds1) = (r', ds')" by simp
  from Cons.IH[OF this] classify_count[OF s] show ?case by simp
qed

text \<open>
  C10: when \<open>get_new_hotelitems\<close> returns, the two counters and the length of
  \<open>hotelitems\<close> add up to the number of items extracted from the page (one per card),
  and the data store has grown by \<open>num_excluded\<close> plus the number of new items: every
  extracted item is of exactly one of the three classes.
\<close>

theorem discover_counts_partition:
  assumes "get_soup E (search_url sc) = Inr sp"
    and "get_new_hotelitems E sc fc ds = (Inr r, ds')"
  shows "num_already_in_datastore r + num_excluded r + int (length (hotelitems r))
           = int (length (yielded (get_hotelitems_from_soup sp (search_url sc))))
    \<and> length (yielded (get_hotelitems_from_soup sp (search_url sc))) = length sp
    \<and> int (length (data ds')) - int (length (data ds))
           = num_excluded r + int (length (hotelitems r))"
proof -
  from assms(2) obtain ps sp' where
    sp': "get_soup E (search_url sc) = Inr sp'"
    and nr: "raised (get_hotelitems_from_soup sp' (search_url sc)) = None"
    and f: "fold (classify (re_search E) ps) (yielded (get_hotelitems_from_soup sp' (search_url sc)))
       (Result_init sc, ds) = (r, ds')"
    by (rule get_new_hotelitems_returns)
  from sp' assms(1) have eq: "sp' = sp" by simp
  from fold_classify_count[OF f] yielded_soup_length[OF nr]
  show ?thesis unfolding eq by (simp add: Result_init_def)
qed

theorem discover_counts_partition_witness:
  "get_new_hotelitems example_env example_search example_filter (DataStore_init ''store.json'')
     = (Inr first_result, first_store)
   \<and> num_already_in_datastore first_result + num_excluded first_result
       + int (length (hotelitems first_result)) = 2
   \<and> length example_page = 2
   \<and> int (length (data first_store)) - int (length (data (DataStore_init ''store.json'')))
       = num_excluded first_result + int (length (hotelitems first_result))"
  using discover_counts_partition[OF example_env_loft(4) example_first_run] example_first_run
  by (simp add: example_page_items)

text \<open>
  C5: for a page from which exactly the two items titled "Cozy Loft" and "Studio Flat"
  are extracted, in this order, an empty data store and the exclude patterns
  \<open>["loft"]\<close>, where the compiled pattern matches "Cozy Loft" and not "Studio Flat" as
  a case-insensitive search does, \<open>get_new_hotelitems\<close> returns a result with
  \<open>num_already_in_datastore = 0\<close>, \<open>num_excluded = 1\<close> and the single new item
  "Studio Flat", and the data store then holds exactly the two titles.
\<close>

theorem discover_example:
  assumes "exclude_patterns fc = [''loft'']"
    and "re_compile E ''loft'' = Inr p"
    and "re_search E p ''Cozy Loft''"
    and "\<not> re_search E p ''Studio Flat''"
    and "get_soup E (search_url sc) = Inr sp"
    and "get_hotelitems_from_soup sp (search_url sc) = Yield x1 (Yield x2 Stop)"
    and "title x1 = ''Cozy Loft''"
    and "title x2 = ''Studio Flat''"
    and "data ds = []"
  shows "get_new_hotelitems E sc fc ds =
     (Inr \<lparr>search_config = sc, num_already_in_datastore = 0, num_excluded = 1, hotelitems = [x2]\<rparr>,
      ds\<lparr>data := [(''Cozy Loft'', x1), (''Studio Flat'', x2)]\<rparr>)"
proof -
  have d: "title x1 \<noteq> title x2" using assms(7,8) by simp
  from run_two_items[OF assms(1,2) _ _ assms(5,6) d assms(9)] assms(3,4,7,8)
  show ?thesis by simp
qed

theorem discover_example_witness:
  "get_new_hotelitems example_env example_search \<lparr>exclude_patterns = [''loft'']\<rparr>
       (DataStore_init ''store.json'') =
     (Inr \<lparr>search_config = example_search, num_already_in_datastore = 0, num_excluded = 1,
           hotelitems = [studio_flat]\<rparr>,
      \<lparr>path = ''store.json'', data = [(''Cozy Loft'', cozy_loft), (''Studio Flat'', studio_flat)]\<rparr>)
   \<and> map fst [(''Cozy Loft'', cozy_loft), (''Studio Flat'', studio_flat)]
       = [''Cozy Loft'', ''Studio Flat'']"
proof -
  have h1: "exclude_patterns \<lparr>exclude_patterns = [''loft'']\<rparr> = [''loft'']" by simp
  have h8: "data (DataStore_init ''store.json'') = []" by (simp add: DataStore_init_def)
  from discover_example[OF h1 example_env_loft example_page_items example_titles h8]
  show ?thesis by (simp add: DataStore_init_def)
qed

lemma dict_contains_map_of: "dict_contains d k \<longleftrightarrow> map_of d k \<noteq> None"
  by (simp add: dict_contains_def map_of_eq_None_iff)

lemma map_of_dict_setitem: "map_of (dict_setitem d k v) = (map_of d)(k \<mapsto> v)"
  by (induction d) (auto simp: fun_eq_iff)

lemma dict_contains_setitem:
  "dict_contains (dict_setitem d k v) k' \<longleftrightarrow> k' = k \<or> dict_contains d k'"
  by (simp add: dict_contains_map_of map_of_dict_setitem)

lemma dict_setitem_new: "\<not> dict_contains d k \<Longrightarrow> dict_setitem d k v = d @ [(k, v)]"
  by (induction d) (auto simp: dict_contains_def)

lemma exclude_hotelitem_iff: "exclude_hotelitem rs ps t \<longleftrightarrow> (\<exists>p\<in>set ps. rs p t)"
  by (induction ps) (auto simp: exclude_hotelitem_def)

lemma classify_contains:
  "classify rs ps x (r, ds) = (r', ds') \<Longrightarrow>
     dict_contains (data ds') k \<longleftrightarrow> k = title x \<or> dict_contains (data ds) k"
  by (auto simp: classify_def Let_def dict_contains_setitem split: if_splits)

lemma fold_classify_contains:
  "fold (classify rs ps) xs (r, ds) = (r', ds') \<Longrightarrow>
     dict_contains (data ds') k \<longleftrightarrow> k \<in> title ` set xs \<or> dict_contains (data ds) k"
proof (induction xs arbitrary: r ds)
  case Nil
  then show ?case by simp
next
  case (Cons x xs)
  obtain r1 ds1 where s: "classify rs ps x (r, ds) = (r1, ds1)" by fastforce
  from Cons.prems s have "fold (classify rs ps) xs (r1, ds1) = (r', ds')" by simp
  from Cons.IH[OF this] classify_contains[OF s] show ?case by auto
qed

lemma fold_classify_known:
  "\<forall>x\<in>set xs. dict_contains (data ds) (title x) \<Longrightarrow>
     fold (classify rs ps) xs (r, ds) =
       (r\<lparr>num_already_in_datastore := num_already_in_datastore r + int (length xs)\<rparr>, ds)"
proof (induction xs arbitrary: r)
  case Nil
  show ?case by simp
next
  case (Cons x xs)
  then show ?case by (simp add: classify_already)
qed

text \<open>
  C4: a second run of \<open>get_new_hotelitems\<close> on the data store the first run left, with
  the same page and configuration, returns a result with no new items,
  \<open>num_excluded = 0\<close> and \<open>num_already_in_datastore\<close> equal to the total of the first
  run (its two counters plus the number of its new items), and leaves the data store
  as it is.
\<close>

theorem discover_twice:
  assumes "get_new_hotelitems E sc fc ds = (Inr r1, ds1)"
  shows "get_new_hotelitems E sc fc ds1 =
     (Inr \<lparr>search_config = sc,
           num_already_in_datastore =
             num_already_in_datastore r1 + num_excluded r1 + int (length (hotelitems r1)),
           num_excluded = 0, hotelitems = []\<rparr>,
      ds1)"
proof -
  from assms obtain ps sp where
    ps: "compile_patterns (re_compile E) (exclude_patterns fc) = Inr ps"
    and sp: "get_soup E (search_url sc) = Inr sp"
    and nr: "raised (get_hotelitems_from_soup sp (search_url sc)) = None"
    and f: "fold (classify (re_search E) ps) (yielded (get_hotelitems_from_soup sp (search_url sc)))
       (Result_init sc, ds) = (r1, ds1)"
    by (rule get_new_hotelitems_returns)
  let ?xs = "yielded (get_hotelitems_from_soup sp (search_url sc))"
  have known: "\<forall>x\<in>set ?xs. dict_contains (data ds1) (title x)"
    using fold_classify_contains[OF f] by simp
  have n: "num_already_in_datastore r1 + num_excluded r1 + int (length (hotelitems r1))
      = int (length ?xs)"
    using fold_classify_count[OF f] by (simp add: Result_init_def)
  have "get_new_hotelitems E sc fc ds1 =
      consume (re_search E) ps (get_hotelitems_from_soup sp (search_url sc)) (Result_init sc, ds1)"
    by (simp add: get_new_hotelitems_def ps sp gen_then_Stop)
  also have "\<dots> = (Inr ((Result_init sc)\<lparr>num_already_in_datastore := int (length ?xs)\<rparr>), ds1)"
    by (simp add: consume_fold nr fold_classify_known[OF known] Result_init_def)
  finally show ?thesis by (simp add: n Result_init_def)
qed


theorem discover_twice_witness:
  "get_new_hotelitems example_env example_search example_filter (DataStore_init ''store.json'')
     = (Inr first_result, first_store)
   \<and> get_new_hotelitems example_env example_search example_filter first_store =
     (Inr \<lparr>search_config = example_search, num_already_in_datastore = 2, num_excluded = 0,
           hotelitems = []\<rparr>, first_store)"
  using discover_twice[OF example_first_run] example_first_run by (simp add: first_result_def)

lemma classify_new_items:
  "classify rs ps x (r, ds) = (r', ds') \<Longrightarrow> y \<in> set (hotelitems r') \<Longrightarrow>
     y \<in> set (hotelitems r) \<or> (y = x \<and> \<not> exclude_hotelitem rs ps (title x))"
  by (auto simp: classify_def Let_def split: if_splits)

lemma fold_classify_new_items:
  "fold (classify rs ps) xs (r, ds) = (r', ds') \<Longrightarrow> y \<in> set (hotelitems r') \<Longrightarrow>
     y \<in> set (hotelitems r) \<or> (y \<in> set xs \<and> \<not> exclude_hotelitem rs ps (title y))"
proof (induction xs arbitrary: r ds)
  case Nil
  then show ?case by simp
next
  case (Cons x xs)
  obtain r1 ds1 where s: "classify rs ps x (r, ds) = (r1, ds1)" by fastforce
  from Cons.prems(1) s have "fold (classify rs ps) xs (r1, ds1) = (r', ds')" by simp
  from Cons.IH[OF this Cons.prems(2)] classify_new_items[OF s, of y] show ?case by auto
qed

section \<open>Patterns and the configuration\<close>

lemma compile_patterns_map:
  "compile_patterns rc ss = Inr ps \<Longrightarrow> map rc ss = map Inr ps"
  by (induction ss arbitrary: ps) (auto split: sum.splits)

lemma compile_patterns_set:
  assumes "compile_patterns rc ss = Inr ps"
  shows "p \<in> set ps \<longleftrightarrow> (\<exists>s\<in>set ss. rc s = Inr p)"
proof -
  from assms have "set (map rc ss) = set (map Inr ps)" by (simp add: compile_patterns_map)
  then have e: "rc ` set ss = Inr ` set ps" by simp
  show ?thesis
  proof
    assume "p \<in> set ps"
    then have "Inr p \<in> rc ` set ss" unfolding e by blast
    then show "\<exists>s\<in>set ss. rc s = Inr p" by force
  next
    assume "\<exists>s\<in>set ss. rc s = Inr p"
    then have "Inr p \<in> rc ` set ss" by force
    then show "p \<in> set ps" unfolding e by blast
  qed
qed

lemma compile_patterns_total:
  "(\<forall>s\<in>set ss. \<exists>p. rc s = Inr p) \<Longrightarrow> \<exists>ps. compile_patterns rc ss = Inr ps"
  by (induction ss) auto

lemma compile_patterns_all:
  assumes "compile_patterns rc ss = Inr ps"
  shows "\<forall>s\<in>set ss. \<exists>p. rc s = Inr p"
proof -
  from assms have "set (map rc ss) = set (map Inr ps)" by (simp add: compile_patterns_map)
  then have "rc ` set ss = Inr ` set ps" by simp
  then show ?thesis by blast
qed

lemma exclude_hotelitem_config:
  assumes "compile_patterns rc ss = Inr ps"
  shows "exclude_hotelitem rs ps t \<longleftrightarrow> (\<exists>s\<in>set ss. \<exists>p. rc s = Inr p \<and> rs p t)"
  unfolding exclude_hotelitem_iff using compile_patterns_set[OF assms] by blast


lemma snd_classify:
  "snd (classify rs ps x (r, ds)) = snd (classify rs' ps' x (r', ds))"
  by (simp add: classify_def Let_def)

lemma snd_fold_classify:
  "snd (fold (classify rs ps) xs (r, ds)) = snd (fold (classify rs' ps') xs (r', ds))"
proof (induction xs arbitrary: r r' ds)
  case Nil
  show ?case by simp
next
  case (Cons x xs)
  obtain r1 d1 where a: "classify rs ps x (r, ds) = (r1, d1)" by fastforce
  obtain r2 d2 where b: "classify rs' ps' x (r', ds) = (r2, d2)" by fastforce
  from snd_classify[of rs ps x r ds rs' ps' r'] a b have "d2 = d1" by simp
  with a b Cons.IH[of r1 d1 r2] show ?case by simp
qed

lemma fold_classify_postfilter:
  assumes "fold (classify rs ps) xs (Result_init sc, ds) = (r, ds')"
    and "fold (classify rs []) xs (Result_init sc, ds) = (r0, ds0)"
  shows "ds' = ds0 \<and> search_config r = sc \<and> search_config r0 = sc
    \<and> num_already_in_datastore r = num_already_in_datastore r0
    \<and> num_excluded r0 = 0
    \<and> hotelitems r = filter (\<lambda>x. \<not> exclude_hotelitem rs ps (title x)) (hotelitems r0)
    \<and> num_excluded r = int (length (filter (\<lambda>x. exclude_hotelitem rs ps (title x)) (hotelitems r0)))"
  using assms
proof (induction xs arbitrary: r ds' r0 ds0 rule: rev_induct)
  case Nil
  then show ?case by (auto simp: Result_init_def)
next
  case (snoc x xs)
  obtain r1 d1 where a: "fold (classify rs ps) xs (Result_init sc, ds) = (r1, d1)" by fastforce
  obtain r2 d2 where b: "fold (classify rs []) xs (Result_init sc, ds) = (r2, d2)" by fastforce
  note IH = snoc.IH[OF a b]
  from snoc.prems a b have c: "classify rs ps x (r1, d1) = (r, ds')"
    and d: "classify rs [] x (r2, d2) = (r0, ds0)" by simp_all
  from IH have e: "d2 = d1" by simp
  have n: "\<not> exclude_hotelitem rs [] t" for t by (simp add: exclude_hotelitem_def)
  show ?case
  proof (cases "dict_contains (data d1) (title x)")
    case True
    with c d IH show ?thesis unfolding e by (auto simp: classify_already)
  next
    case False
    show ?thesis
    proof (cases "exclude_hotelitem rs ps (title x)")
      case True
      with False c d IH n show ?thesis unfolding e
        by (auto simp: classify_excluded classify_new)
    next
      case nx: False
      with False c d IH n show ?thesis unfolding e
        by (auto simp: classify_excluded classify_new)
    qed
  qed
qed

lemma get_new_hotelitems_consume:
  assumes "compile_patterns (re_compile E) (exclude_patterns fc) = Inr ps"
    and "get_soup E (search_url sc) = Inr sp"
  shows "get_new_hotelitems E sc fc ds =
     consume (re_search E) ps (get_hotelitems_from_soup sp (search_url sc)) (Result_init sc, ds)"
  using assms by (simp add: get_new_hotelitems_def gen_then_Stop)

lemma run_two_new_items:
  assumes comp: "compile_patterns (re_compile E) (exclude_patterns fc) = Inr ps"
    and page: "get_soup E (search_url sc) = Inr sp"
    and items: "get_hotelitems_from_soup sp (search_url sc) = Yield x1 (Yield x2 Stop)"
    and diff: "title x1 \<noteq> title x2"
    and empty: "data ds = []"
  shows "exclude_hotelitem (re_search E) ps (title x1) \<Longrightarrow>
         \<not> exclude_hotelitem (re_search E) ps (title x2) \<Longrightarrow>
     get_new_hotelitems E sc fc ds =
       (Inr \<lparr>search_config = sc, num_already_in_datastore = 0, num_excluded = 1, hotelitems = [x2]\<rparr>,
        ds\<lparr>data := [(title x1, x1), (title x2, x2)]\<rparr>)"
    and "\<not> exclude_hotelitem (re_search E) ps (title x1) \<Longrightarrow>
         \<not> exclude_hotelitem (re_search E) ps (title x2) \<Longrightarrow>
     get_new_hotelitems E sc fc ds =
       (Inr \<lparr>search_config = sc, num_already_in_datastore = 0, num_excluded = 0,
             hotelitems = [x1, x2]\<rparr>,
        ds\<lparr>data := [(title x1, x1), (title x2, x2)]\<rparr>)"
proof -
  let ?rs = "re_search E"
  let ?d1 = "ds\<lparr>data := [(title x1, x1)]\<rparr>"
  let ?d2 = "ds\<lparr>data := [(title x1, x1), (title x2, x2)]\<rparr>"
  have n1: "\<not> dict_contains (data ds) (title x1)" by (simp add: empty dict_contains_def)
  have n2: "\<not> dict_contains (data ?d1) (title x2)" using diff by (auto simp: dict_contains_def)
  have run: "get_new_hotelitems E sc fc ds =
      consume ?rs ps (Yield x1 (Yield x2 Stop)) (Result_init sc, ds)"
    by (simp add: get_new_hotelitems_consume[OF comp page] items)
  {
    assume m1: "exclude_hotelitem ?rs ps (title x1)" and m2: "\<not> exclude_hotelitem ?rs ps (title x2)"
    let ?r1 = "(Result_init sc)\<lparr>num_excluded := 1\<rparr>"
    have s1: "classify ?rs ps x1 (Result_init sc, ds) = (?r1, ?d1)"
      using classify_excluded[OF n1 m1, of "Result_init sc"] by (simp add: empty Result_init_def)
    have s2: "classify ?rs ps x2 (?r1, ?d1) = (?r1\<lparr>hotelitems := [x2]\<rparr>, ?d2)"
      using classify_new[OF n2 m2, of ?r1] diff by (simp add: Result_init_def)
    have "consume ?rs ps (Yield x1 (Yield x2 Stop)) (Result_init sc, ds)
        = (Inr (?r1\<lparr>hotelitems := [x2]\<rparr>), ?d2)"
      by (simp only: consume.simps s1 s2)
    with run show "get_new_hotelitems E sc fc ds =
       (Inr \<lparr>search_config = sc, num_already_in_datastore = 0, num_excluded = 1, hotelitems = [x2]\<rparr>,
        ?d2)" by (simp add: Result_init_def)
  }
  {
    assume m1: "\<not> exclude_hotelitem ?rs ps (title x1)" and m2: "\<not> exclude_hotelitem ?rs ps (title x2)"
    let ?r1 = "(Result_init sc)\<lparr>hotelitems := [x1]\<rparr>"
    have s1: "classify ?rs ps x1 (Result_init sc, ds) = (?r1, ?d1)"
      using classify_new[OF n1 m1, of "Result_init sc"] by (simp add: empty Result_init_def)
    have s2: "classify ?rs ps x2 (?r1, ?d1) = (?r1\<lparr>hotelitems := [x1, x2]\<rparr>, ?d2)"
      using classify_new[OF n2 m2, of ?r1] diff by (simp add: Result_init_def)
    have "consume ?rs ps (Yield x1 (Yield x2 Stop)) (Result_init sc, ds)
        = (Inr (?r1\<lparr>hotelitems := [x1, x2]\<rparr>), ?d2)"
      by (simp only: consume.simps s1 s2)
    with run show "get_new_hotelitems E sc fc ds =
       (Inr \<lparr>search_config = sc, num_already_in_datastore = 0, num_excluded = 0,
             hotelitems = [x1, x2]\<rparr>, ?d2)" by (simp add: Result_init_def)
  }
qed

lemma literal_search_villa:
  "\<not> literal_search ''villa'' ''Cozy Loft''" "\<not> literal_search ''villa'' ''Studio Flat''"
  by (simp_all add: lower_def)

lemma example_env_fields:
  "re_compile example_env = Inr" "re_search example_env = literal_search"
  by (simp_all add: example_env_def)

lemma example_excluded:
  "exclude_hotelitem literal_search [''villa'', ''loft''] ''Cozy Loft''"
  "\<not> exclude_hotelitem literal_search [''villa'', ''loft''] ''Studio Flat''"
  "exclude_hotelitem literal_search [''loft'', ''villa''] ''Cozy Loft''"
  "\<not> exclude_hotelitem literal_search [''loft'', ''villa''] ''Studio Flat''"
  "\<not> exclude_hotelitem literal_search [] t"
  by (simp_all add: exclude_hotelitem_def literal_search_loft literal_search_villa
      del: literal_search.simps)

lemma example_distinct: "title cozy_loft \<noteq> title studio_flat"
  by (simp add: example_titles)

lemma example_empty: "data (DataStore_init ''store.json'') = []"
  by (simp add: DataStore_init_def)

lemma villa_loft_run:
  "get_new_hotelitems example_env example_search villa_loft_filter (DataStore_init ''store.json'')
     = (Inr first_result, first_store)"
proof -
  have c: "compile_patterns (re_compile example_env) (exclude_patterns villa_loft_filter)
      = Inr [''villa'', ''loft'']"
    by (simp add: villa_loft_filter_def example_env_fields)
  from run_two_new_items(1)[OF c example_env_loft(4) example_page_items example_distinct example_empty]
    example_excluded(1,2)
  show ?thesis
    by (simp add: example_env_fields example_titles first_result_def first_store_def
        DataStore_init_def del: literal_search.simps)
qed

lemma loft_villa_run:
  "get_new_hotelitems example_env example_search loft_villa_filter (DataStore_init ''store.json'')
     = (Inr first_result, first_store)"
proof -
  have c: "compile_patterns (re_compile example_env) (exclude_patterns loft_villa_filter)
      = Inr [''loft'', ''villa'']"
    by (simp add: loft_villa_filter_def example_env_fields)
  from run_two_new_items(1)[OF c example_env_loft(4) example_page_items example_distinct example_empty]
    example_excluded(3,4)
  show ?thesis
    by (simp add: example_env_fields example_titles first_result_def first_store_def
        DataStore_init_def del: literal_search.simps)
qed

lemma unfiltered_run:
  "get_new_hotelitems example_env example_search no_filter (DataStore_init ''store.json'')
     = (Inr unfiltered_result, first_store)"
proof -
  have c: "compile_patterns (re_compile example_env) (exclude_patterns no_filter) = Inr []"
    by (simp add: no_filter_def)
  from run_two_new_items(2)[OF c example_env_loft(4) example_page_items example_distinct example_empty]
    example_excluded(5)
  show ?thesis
    by (simp add: example_env_fields example_titles unfiltered_result_def first_store_def
        DataStore_init_def del: literal_search.simps)
qed

lemma classify_set_cong:
  "set ps' = set ps \<Longrightarrow> classify rs ps' = classify rs ps"
  by (auto simp: classify_def exclude_hotelitem_iff fun_eq_iff)

lemma compile_failure:
  assumes "\<not> (\<forall>s\<in>set (exclude_patterns fc). \<exists>p. re_compile E s = Inr p)"
  shows "snd (get_new_hotelitems E sc fc ds) = ds"
    and "\<exists>e. fst (get_new_hotelitems E sc fc ds) = Inl e"
proof -
  obtain e where "compile_patterns (re_compile E) (exclude_patterns fc) = Inl e"
    using assms compile_patterns_all[of "re_compile E" "exclude_patterns fc"]
    by (cases "compile_patterns (re_compile E) (exclude_patterns fc)") auto
  then have "get_new_hotelitems E sc fc ds = (Inl e, ds)"
    by (simp add: get_new_hotelitems_def)
  then show "snd (get_new_hotelitems E sc fc ds) = ds"
    and "\<exists>e. fst (get_new_hotelitems E sc fc ds) = Inl e" by simp_all
qed

lemma run_returns_compiled:
  assumes "get_new_hotelitems E sc fc ds = (Inr r, ds')"
  shows "\<forall>s\<in>set (exclude_patterns fc). \<exists>p. re_compile E s = Inr p"
proof -
  from assms obtain ps where "compile_patterns (re_compile E) (exclude_patterns fc) = Inr ps"
    by (rule get_new_hotelitems_returns)
  then show ?thesis by (rule compile_patterns_all)
qed

lemma run_stores_titles:
  assumes run: "get_new_hotelitems E sc fc ds = (Inr r, ds')"
    and sp: "get_soup E (search_url sc) = Inr sp"
    and x: "x \<in> set (yielded (get_hotelitems_from_soup sp (search_url sc)))"
  shows "dict_contains (data ds') (title x)"
proof -
  from run obtain ps sp' where
    sp': "get_soup E (search_url sc) = Inr sp'"
    and f: "fold (classify (re_search E) ps) (yielded (get_hotelitems_from_soup sp' (search_url sc)))
       (Result_init sc, ds) = (r, ds')"
    by (rule get_new_hotelitems_returns)
  from sp sp' have eq: "sp' = sp" by simp
  from x fold_classify_contains[OF f] show ?thesis unfolding eq by simp
qed

lemma run_skips_matching:
  assumes run: "get_new_hotelitems E sc fc ds = (Inr r, ds')"
    and s: "s \<in> set (exclude_patterns fc)"
    and p: "re_compile E s = Inr p"
    and m: "re_search E p (title x)"
  shows "x \<notin> set (hotelitems r)"
proof -
  from run obtain ps sp where
    ps: "compile_patterns (re_compile E) (exclude_patterns fc) = Inr ps"
    and f: "fold (classify (re_search E) ps) (yielded (get_hotelitems_from_soup sp (search_url sc)))
       (Result_init sc, ds) = (r, ds')"
    by (rule get_new_hotelitems_returns)
  have "exclude_hotelitem (re_search E) ps (title x)"
    unfolding exclude_hotelitem_config[OF ps] using s p m by blast
  with fold_classify_new_items[OF f, of x] show ?thesis
    by (auto simp: Result_init_def)
qed

lemma run_store_any_outcome:
  assumes all: "\<forall>s\<in>set (exclude_patterns fc). \<exists>p. re_compile E s = Inr p"
    and sp: "get_soup E (search_url sc) = Inr sp"
    and x: "x \<in> set (yielded (get_hotelitems_from_soup sp (search_url sc)))"
  shows "dict_contains (data (snd (get_new_hotelitems E sc fc ds))) (title x)"
proof -
  from compile_patterns_total[OF all] obtain ps where
    ps: "compile_patterns (re_compile E) (exclude_patterns fc) = Inr ps" by blast
  let ?xs = "yielded (get_hotelitems_from_soup sp (search_url sc))"
  obtain r d where f: "fold (classify (re_search E) ps) ?xs (Result_init sc, ds) = (r, d)"
    by fastforce
  have "snd (get_new_hotelitems E sc fc ds) = d"
    by (simp add: get_new_hotelitems_consume[OF ps sp] consume_fold f)
  with x fold_classify_contains[OF f] show ?thesis by simp
qed

lemma run_store_unfiltered:
  assumes all: "\<forall>s\<in>set (exclude_patterns fc). \<exists>p. re_compile E s = Inr p"
  shows "snd (get_new_hotelitems E sc fc ds)
     = snd (get_new_hotelitems E sc (fc\<lparr>exclude_patterns := []\<rparr>) ds)"
proof -
  from compile_patterns_total[OF all] obtain ps where
    ps: "compile_patterns (re_compile E) (exclude_patterns fc) = Inr ps" by blast
  have ps0: "compile_patterns (re_compile E) (exclude_patterns (fc\<lparr>exclude_patterns := []\<rparr>)) = Inr []"
    by simp
  show ?thesis
  proof (cases "get_soup E (search_url sc)")
    case (Inl e)
    then show ?thesis by (simp add: get_new_hotelitems_def ps)
  next
    case (Inr sp)
    show ?thesis
      unfolding get_new_hotelitems_consume[OF ps Inr] get_new_hotelitems_consume[OF ps0 Inr]
      by (simp add: consume_fold snd_fold_classify[of "re_search E" ps _ _ _ "re_search E" "[]"])
  qed
qed

lemma run_postfilter:
  assumes all: "\<forall>s\<in>set (exclude_patterns fc). \<exists>p. re_compile E s = Inr p"
    and run0: "get_new_hotelitems E sc (fc\<lparr>exclude_patterns := []\<rparr>) ds = (Inr r0, ds')"
  shows "get_new_hotelitems E sc fc ds =
     (Inr (r0\<lparr>num_excluded := int (length (filter
               (\<lambda>x. \<exists>s\<in>set (exclude_patterns fc). \<exists>p. re_compile E s = Inr p \<and> re_search E p (title x))
               (hotelitems r0))),
             hotelitems := filter
               (\<lambda>x. \<not> (\<exists>s\<in>set (exclude_patterns fc). \<exists>p. re_compile E s = Inr p \<and> re_search E p (title x)))
               (hotelitems r0)\<rparr>),
      ds')"
proof -
  from compile_patterns_total[OF all] obtain ps where
    ps: "compile_patterns (re_compile E) (exclude_patterns fc) = Inr ps" by blast
  from run0 obtain ps0 sp where
    ps0: "compile_patterns (re_compile E) (exclude_patterns (fc\<lparr>exclude_patterns := []\<rparr>)) = Inr ps0"
    and sp: "get_soup E (search_url sc) = Inr sp"
    and nr: "raised (get_hotelitems_from_soup sp (search_url sc)) = None"
    and f0: "fold (classify (re_search E) ps0) (yielded (get_hotelitems_from_soup sp (search_url sc)))
       (Result_init sc, ds) = (r0, ds')"
    by (rule get_new_hotelitems_returns)
  from ps0 have e0: "ps0 = []" by simp
  let ?xs = "yielded (get_hotelitems_from_soup sp (search_url sc))"
  obtain r d where f: "fold (classify (re_search E) ps) ?xs (Result_init sc, ds) = (r, d)"
    by fastforce
  note P = fold_classify_postfilter[OF f f0[unfolded e0]]
  have run: "get_new_hotelitems E sc fc ds = (Inr r, d)"
    by (simp add: get_new_hotelitems_consume[OF ps sp] consume_fold nr f)
  have "r = r0\<lparr>num_excluded := int (length (filter
               (\<lambda>x. exclude_hotelitem (re_search E) ps (title x)) (hotelitems r0))),
             hotelitems := filter
               (\<lambda>x. \<not> exclude_hotelitem (re_search E) ps (title x)) (hotelitems r0)\<rparr>"
    using P by (cases r, cases r0) simp
  with run P show ?thesis by (simp add: exclude_hotelitem_config[OF ps])
qed

lemma run_perm_eq:
  assumes perm: "mset (exclude_patterns fc') = mset (exclude_patterns fc)"
    and all: "\<forall>s\<in>set (exclude_patterns fc). \<exists>p. re_compile E s = Inr p"
  shows "get_new_hotelitems E sc fc' ds = get_new_hotelitems E sc fc ds"
proof -
  from perm have st: "set (exclude_patterns fc') = set (exclude_patterns fc)"
    by (rule mset_eq_setD)
  from compile_patterns_total[OF all] obtain ps where
    ps: "compile_patterns (re_compile E) (exclude_patterns fc) = Inr ps" by blast
  from all st have "\<forall>s\<in>set (exclude_patterns fc'). \<exists>p. re_compile E s = Inr p" by simp
  from compile_patterns_total[OF this] obtain ps' where
    ps': "compile_patterns (re_compile E) (exclude_patterns fc') = Inr ps'" by blast
  have "set ps' = set ps"
    using compile_patterns_set[OF ps] compile_patterns_set[OF ps'] st by auto
  then have c: "classify (re_search E) ps' = classify (re_search E) ps"
    by (rule classify_set_cong)
  show ?thesis
  proof (cases "get_soup E (search_url sc)")
    case (Inl e)
    then show ?thesis by (simp add: get_new_hotelitems_def ps ps')
  next
    case (Inr sp)
    show ?thesis
      unfolding get_new_hotelitems_consume[OF ps Inr] get_new_hotelitems_consume[OF ps' Inr]
        consume_fold c ..
  qed
qed

lemma run_perm_store:
  assumes perm: "mset (exclude_patterns fc') = mset (exclude_patterns fc)"
  shows "snd (get_new_hotelitems E sc fc' ds) = snd (get_new_hotelitems E sc fc ds)"
proof (cases "\<forall>s\<in>set (exclude_patterns fc). \<exists>p. re_compile E s = Inr p")
  case True
  from run_perm_eq[OF perm True] show ?thesis by simp
next
  case False
  from perm have "set (exclude_patterns fc') = set (exclude_patterns fc)" by (rule mset_eq_setD)
  with False have "\<not> (\<forall>s\<in>set (exclude_patterns fc'). \<exists>p. re_compile E s = Inr p)" by simp
  from compile_failure(1)[OF this] compile_failure(1)[OF False] show ?thesis by simp
qed

lemma first_match_Some_iff:
  "first_match rs ps t = Some p \<longleftrightarrow>
     (\<exists>pre post. ps = pre @ p # post \<and> rs p t \<and> (\<forall>q\<in>set pre. \<not> rs q t))"
proof (induction ps)
  case Nil
  show ?case by simp
next
  case (Cons a ps)
  show ?case
  proof (cases "rs a t")
    case True
    show ?thesis
    proof
      assume "first_match rs (a # ps) t = Some p"
      with True have "a = p" by simp
      with True have "a # ps = [] @ p # ps \<and> rs p t \<and> (\<forall>q\<in>set []. \<not> rs q t)" by simp
      then show "\<exists>pre post. a # ps = pre @ p # post \<and> rs p t \<and> (\<forall>q\<in>set pre. \<not> rs q t)"
        by blast
    next
      assume "\<exists>pre post. a # ps = pre @ p # post \<and> rs p t \<and> (\<forall>q\<in>set pre. \<not> rs q t)"
      then obtain pre post where e: "a # ps = pre @ p # post" and n: "\<forall>q\<in>set pre. \<not> rs q t"
        by blast
      from e n True have "pre = []" by (cases pre) auto
      with e True show "first_match rs (a # ps) t = Some p" by simp
    qed
  next
    case False
    show ?thesis
    proof
      assume "first_match rs (a # ps) t = Some p"
      with False have "first_match rs ps t = Some p" by simp
      with Cons.IH obtain pre post where
        "ps = pre @ p # post" "rs p t" "\<forall>q\<in>set pre. \<not> rs q t" by blast
      with False have "a # ps = (a # pre) @ p # post \<and> rs p t \<and> (\<forall>q\<in>set (a # pre). \<not> rs q t)"
        by simp
      then show "\<exists>pre post. a # ps = pre @ p # post \<and> rs p t \<and> (\<forall>q\<in>set pre. \<not> rs q t)"
        by blast
    next
      assume "\<exists>pre post. a # ps = pre @ p # post \<and> rs p t \<and> (\<forall>q\<in>set pre. \<not> rs q t)"
      then obtain pre post where e: "a # ps = pre @ p # post" and m: "rs p t"
        and n: "\<forall>q\<in>set pre. \<not> rs q t" by blast
      from e m False obtain pre' where p: "pre = a # pre'" by (cases pre) auto
      with e n have "ps = pre' @ p # post \<and> rs p t \<and> (\<forall>q\<in>set pre'. \<not> rs q t)"
        using m by simp
      with Cons.IH have "first_match rs ps t = Some p" by blast
      with False show "first_match rs (a # ps) t = Some p" by simp
    qed
  qed
qed

text \<open>
  C1: an extracted item whose title is not yet in the data store is put into the
  store whatever the exclude patterns say (the store afterwards is the store before
  with the item appended under its title). So after a run that returns, every
  extracted item's title is in the store, and an item whose title is matched by a
  configured exclude pattern, as \<open>re.compile\<close> compiles it, is not among the new items
  of the result. The store does not depend on the patterns at all: when they compile,
  every item the generator has yielded is in the store even if the run then raises,
  and the store is the one the run without patterns leaves.
\<close>

theorem store_before_filter:
  "(\<not> dict_contains (data ds0) (title x0) \<longrightarrow>
      snd (classify rs ps0 x0 (r0, ds0)) = ds0\<lparr>data := data ds0 @ [(title x0, x0)]\<rparr>)
   \<and> (get_new_hotelitems E sc fc ds = (Inr r, ds')
        \<and> get_soup E (search_url sc) = Inr sp
        \<and> x \<in> set (yielded (get_hotelitems_from_soup sp (search_url sc)))
        \<longrightarrow> dict_contains (data ds') (title x)
            \<and> (\<forall>s\<in>set (exclude_patterns fc). \<forall>p.
                  re_compile E s = Inr p \<and> re_search E p (title x) \<longrightarrow> x \<notin> set (hotelitems r)))
   \<and> ((\<forall>s\<in>set (exclude_patterns fc). \<exists>p. re_compile E s = Inr p)
        \<longrightarrow> snd (get_new_hotelitems E sc fc ds)
              = snd (get_new_hotelitems E sc (fc\<lparr>exclude_patterns := []\<rparr>) ds)
            \<and> (get_soup E (search_url sc) = Inr sp
                 \<and> x \<in> set (yielded (get_hotelitems_from_soup sp (search_url sc)))
                \<longrightarrow> dict_contains (data (snd (get_new_hotelitems E sc fc ds))) (title x)))"
proof (intro conjI impI ballI allI)
  assume "\<not> dict_contains (data ds0) (title x0)"
  then show "snd (classify rs ps0 x0 (r0, ds0)) = ds0\<lparr>data := data ds0 @ [(title x0, x0)]\<rparr>"
    by (simp add: classify_def Let_def dict_setitem_new)
next
  assume a: "get_new_hotelitems E sc fc ds = (Inr r, ds')
        \<and> get_soup E (search_url sc) = Inr sp
        \<and> x \<in> set (yielded (get_hotelitems_from_soup sp (search_url sc)))"
  then show "dict_contains (data ds') (title x)"
    by (blast intro: run_stores_titles)
  fix s p
  assume "s \<in> set (exclude_patterns fc)" and "re_compile E s = Inr p \<and> re_search E p (title x)"
  with a show "x \<notin> set (hotelitems r)"
    by (blast dest: run_skips_matching)
next
  assume all: "\<forall>s\<in>set (exclude_patterns fc). \<exists>p. re_compile E s = Inr p"
  then show "snd (get_new_hotelitems E sc fc ds)
              = snd (get_new_hotelitems E sc (fc\<lparr>exclude_patterns := []\<rparr>) ds)"
    by (rule run_store_unfiltered)
  assume "get_soup E (search_url sc) = Inr sp
        \<and> x \<in> set (yielded (get_hotelitems_from_soup sp (search_url sc)))"
  with all show "dict_contains (data (snd (get_new_hotelitems E sc fc ds))) (title x)"
    by (blast intro: run_store_any_outcome)
qed

theorem store_before_filter_witness:
  "\<not> dict_contains (data (DataStore_init ''store.json'')) (title cozy_loft)
   \<and> snd (classify literal_search [''villa'', ''loft''] cozy_loft
         (Result_init example_search, DataStore_init ''store.json''))
       = \<lparr>path = ''store.json'', data = [(''Cozy Loft'', cozy_loft)]\<rparr>
   \<and> get_new_hotelitems example_env example_search villa_loft_filter (DataStore_init ''store.json'')
       = (Inr first_result, first_store)
   \<and> get_soup example_env (search_url example_search) = Inr example_page
   \<and> cozy_loft \<in> set (yielded (get_hotelitems_from_soup example_page (search_url example_search)))
   \<and> ''loft'' \<in> set (exclude_patterns villa_loft_filter)
   \<and> re_compile example_env ''loft'' = Inr ''loft''
   \<and> re_search example_env ''loft'' (title cozy_loft)
   \<and> exclude_patterns villa_loft_filter = [''villa'', ''loft'']
   \<and> re_compile example_env ''villa'' = Inr ''villa''
   \<and> dict_contains (data first_store) (title cozy_loft)
   \<and> cozy_loft \<notin> set (hotelitems first_result)
   \<and> snd (get_new_hotelitems example_env example_search
           (villa_loft_filter\<lparr>exclude_patterns := []\<rparr>) (DataStore_init ''store.json''))
       = first_store"
proof -
  have h0: "\<not> dict_contains (data (DataStore_init ''store.json'')) (title cozy_loft)"
    by (simp add: DataStore_init_def dict_contains_def)
  have h2: "cozy_loft \<in> set (yielded (get_hotelitems_from_soup example_page (search_url example_search)))"
    by (simp add: example_page_items)
  have h3: "''loft'' \<in> set (exclude_patterns villa_loft_filter)"
    by (simp add: villa_loft_filter_def)
  have h4: "re_search example_env ''loft'' (title cozy_loft)"
    by (simp only: example_titles example_env_loft)
  have h5: "\<forall>s\<in>set (exclude_patterns villa_loft_filter). \<exists>p. re_compile example_env s = Inr p"
    by (simp add: example_env_fields)
  note T = store_before_filter[where ?ds0.0 = "DataStore_init ''store.json''" and ?x0.0 = cozy_loft
      and rs = literal_search and ?ps0.0 = "[''villa'', ''loft'']"
      and ?r0.0 = "Result_init example_search"
      and E = example_env and sc = example_search and fc = villa_loft_filter
      and ds = "DataStore_init ''store.json''" and r = first_result and ds' = first_store
      and sp = example_page and x = cozy_loft]
  from T h0 have c1: "snd (classify literal_search [''villa'', ''loft''] cozy_loft
         (Result_init example_search, DataStore_init ''store.json''))
       = \<lparr>path = ''store.json'', data = [(''Cozy Loft'', cozy_loft)]\<rparr>"
    by (simp add: DataStore_init_def example_titles del: literal_search.simps)
  from T villa_loft_run example_env_loft(4) h2
  have c2: "dict_contains (data first_store) (title cozy_loft)
     \<and> (\<forall>s\<in>set (exclude_patterns villa_loft_filter). \<forall>p.
          re_compile example_env s = Inr p \<and> re_search example_env p (title cozy_loft)
            \<longrightarrow> cozy_loft \<notin> set (hotelitems first_result))"
    by blast
  from c2 h3 example_env_loft(1) h4 have c3: "cozy_loft \<notin> set (hotelitems first_result)"
    by blast
  from T h5 villa_loft_run
  have c4: "snd (get_new_hotelitems example_env example_search
           (villa_loft_filter\<lparr>exclude_patterns := []\<rparr>) (DataStore_init ''store.json''))
       = first_store"
    by simp
  have h6: "exclude_patterns villa_loft_filter = [''villa'', ''loft'']"
    by (simp add: villa_loft_filter_def)
  have h7: "re_compile example_env ''villa'' = Inr ''villa''"
    by (simp add: example_env_fields)
  from h0 c1 villa_loft_run example_env_loft(1,4) h2 h3 h4 h6 h7 c2 c3 c4 show ?thesis
    by blast
qed

text \<open>
  C3: the compiled patterns are the configured ones in their order; the loop over
  them stops at the first pattern that matches the title (no pattern before it
  matches), and then a new item adds one to \<open>num_excluded\<close>. The run with the
  patterns is the run without patterns with its new items filtered afterwards by
  "some configured pattern matches"; so for a permutation of the exclude patterns
  the data store after the run is the same, and a returned result is returned
  unchanged.
\<close>

theorem exclude_order_irrelevant:
  "(compile_patterns (re_compile E) (exclude_patterns fc) = Inr ps \<longrightarrow>
      map (re_compile E) (exclude_patterns fc) = map Inr ps)
   \<and> (first_match rs ps0 t = Some p \<longleftrightarrow>
        (\<exists>pre post. ps0 = pre @ p # post \<and> rs p t \<and> (\<forall>q\<in>set pre. \<not> rs q t)))
   \<and> (\<not> dict_contains (data ds0) (title x0) \<and> first_match rs ps0 (title x0) = Some p \<longrightarrow>
        fst (classify rs ps0 x0 (r0, ds0)) = r0\<lparr>num_excluded := num_excluded r0 + 1\<rparr>)
   \<and> (mset (exclude_patterns fc') = mset (exclude_patterns fc) \<longrightarrow>
        snd (get_new_hotelitems E sc fc' ds) = snd (get_new_hotelitems E sc fc ds)
        \<and> (get_new_hotelitems E sc fc ds = (Inr r, ds') \<longrightarrow>
             get_new_hotelitems E sc fc' ds = (Inr r, ds')))
   \<and> ((\<forall>s\<in>set (exclude_patterns fc). \<exists>p. re_compile E s = Inr p)
        \<and> get_new_hotelitems E sc (fc\<lparr>exclude_patterns := []\<rparr>) ds = (Inr ru, du) \<longrightarrow>
        get_new_hotelitems E sc fc ds =
          (Inr (ru\<lparr>num_excluded := int (length (filter
                    (\<lambda>x. \<exists>s\<in>set (exclude_patterns fc). \<exists>p.
                           re_compile E s = Inr p \<and> re_search E p (title x))
                    (hotelitems ru))),
                  hotelitems := filter
                    (\<lambda>x. \<not> (\<exists>s\<in>set (exclude_patterns fc). \<exists>p.
                           re_compile E s = Inr p \<and> re_search E p (title x)))
                    (hotelitems ru)\<rparr>),
           du))"
proof (intro conjI impI)
  assume "compile_patterns (re_compile E) (exclude_patterns fc) = Inr ps"
  then show "map (re_compile E) (exclude_patterns fc) = map Inr ps"
    by (rule compile_patterns_map)
next
  show "first_match rs ps0 t = Some p \<longleftrightarrow>
        (\<exists>pre post. ps0 = pre @ p # post \<and> rs p t \<and> (\<forall>q\<in>set pre. \<not> rs q t))"
    by (rule first_match_Some_iff)
next
  assume "\<not> dict_contains (data ds0) (title x0) \<and> first_match rs ps0 (title x0) = Some p"
  then show "fst (classify rs ps0 x0 (r0, ds0)) = r0\<lparr>num_excluded := num_excluded r0 + 1\<rparr>"
    by (simp add: classify_excluded exclude_hotelitem_def)
next
  assume perm: "mset (exclude_patterns fc') = mset (exclude_patterns fc)"
  then show "snd (get_new_hotelitems E sc fc' ds) = snd (get_new_hotelitems E sc fc ds)"
    by (rule run_perm_store)
  assume run: "get_new_hotelitems E sc fc ds = (Inr r, ds')"
  from run_perm_eq[OF perm run_returns_compiled[OF run]] run
  show "get_new_hotelitems E sc fc' ds = (Inr r, ds')" by simp
next
  assume "(\<forall>s\<in>set (exclude_patterns fc). \<exists>p. re_compile E s = Inr p)
        \<and> get_new_hotelitems E sc (fc\<lparr>exclude_patterns := []\<rparr>) ds = (Inr ru, du)"
  then have all: "\<forall>s\<in>set (exclude_patterns fc). \<exists>p. re_compile E s = Inr p"
    and run0: "get_new_hotelitems E sc (fc\<lparr>exclude_patterns := []\<rparr>) ds = (Inr ru, du)"
    by blast+
  show "get_new_hotelitems E sc fc ds =
          (Inr (ru\<lparr>num_excluded := int (length (filter
                    (\<lambda>x. \<exists>s\<in>set (exclude_patterns fc). \<exists>p.
                           re_compile E s = Inr p \<and> re_search E p (title x))
                    (hotelitems ru))),
                  hotelitems := filter
                    (\<lambda>x. \<not> (\<exists>s\<in>set (exclude_patterns fc). \<exists>p.
                           re_compile E s = Inr p \<and> re_search E p (title x)))
                    (hotelitems ru)\<rparr>),
           du)"
    by (rule run_postfilter[OF all run0])
qed

theorem exclude_order_irrelevant_witness:
  "compile_patterns (re_compile example_env) (exclude_patterns villa_loft_filter)
       = Inr [''villa'', ''loft'']
   \<and> map (re_compile example_env) (exclude_patterns villa_loft_filter)
       = map Inr [''villa'', ''loft'']
   \<and> [''villa'', ''loft''] = [''villa''] @ ''loft'' # []
   \<and> literal_search ''loft'' ''Cozy Loft''
   \<and> \<not> literal_search ''villa'' ''Cozy Loft''
   \<and> first_match literal_search [''villa'', ''loft''] ''Cozy Loft'' = Some ''loft''
   \<and> \<not> dict_contains (data (DataStore_init ''store.json'')) (title cozy_loft)
   \<and> fst (classify literal_search [''villa'', ''loft''] cozy_loft
          (Result_init example_search, DataStore_init ''store.json''))
       = (Result_init example_search)\<lparr>num_excluded := 1\<rparr>
   \<and> mset (exclude_patterns loft_villa_filter) = mset (exclude_patterns villa_loft_filter)
   \<and> get_new_hotelitems example_env example_search villa_loft_filter (DataStore_init ''store.json'')
       = (Inr first_result, first_store)
   \<and> get_new_hotelitems example_env example_search loft_villa_filter (DataStore_init ''store.json'')
       = (Inr first_result, first_store)
   \<and> exclude_patterns villa_loft_filter = [''villa'', ''loft'']
   \<and> re_compile example_env ''villa'' = Inr ''villa''
   \<and> re_compile example_env ''loft'' = Inr ''loft''
   \<and> get_new_hotelitems example_env example_search (villa_loft_filter\<lparr>exclude_patterns := []\<rparr>)
         (DataStore_init ''store.json'')
       = (Inr unfiltered_result, first_store)
   \<and> get_new_hotelitems example_env example_search villa_loft_filter (DataStore_init ''store.json'')
       = (Inr (unfiltered_result\<lparr>num_excluded := int (length (filter
                 (\<lambda>x. \<exists>s\<in>set (exclude_patterns villa_loft_filter). \<exists>p.
                        re_compile example_env s = Inr p \<and> re_search example_env p (title x))
                 (hotelitems unfiltered_result))),
               hotelitems := filter
                 (\<lambda>x. \<not> (\<exists>s\<in>set (exclude_patterns villa_loft_filter). \<exists>p.
                        re_compile example_env s = Inr p \<and> re_search example_env p (title x)))
                 (hotelitems unfiltered_result)\<rparr>),
          first_store)
   \<and> first_result = unfiltered_result\<lparr>num_excluded := 1, hotelitems := [studio_flat]\<rparr>"
proof -
  note T = exclude_order_irrelevant[where E = example_env and fc = villa_loft_filter
      and ps = "[''villa'', ''loft'']" and rs = literal_search and ?ps0.0 = "[''villa'', ''loft'']"
      and t = "''Cozy Loft''" and p = "''loft''" and ?ds0.0 = "DataStore_init ''store.json''"
      and ?x0.0 = cozy_loft and ?r0.0 = "Result_init example_search"
      and fc' = loft_villa_filter and sc = example_search and ds = "DataStore_init ''store.json''"
      and r = first_result and ds' = first_store and ru = unfiltered_result and du = first_store]
  have h0: "compile_patterns (re_compile example_env) (exclude_patterns villa_loft_filter)
       = Inr [''villa'', ''loft'']"
    by (simp add: villa_loft_filter_def example_env_fields)
  have h1: "[''villa'', ''loft''] = [''villa''] @ ''loft'' # []" by simp
  have h2: "\<forall>q\<in>set [''villa'']. \<not> literal_search q ''Cozy Loft''"
    by (simp add: literal_search_villa del: literal_search.simps)
  have h3: "\<not> dict_contains (data (DataStore_init ''store.json'')) (title cozy_loft)"
    by (simp add: DataStore_init_def dict_contains_def)
  have h4: "mset (exclude_patterns loft_villa_filter) = mset (exclude_patterns villa_loft_filter)"
    by (simp add: loft_villa_filter_def villa_loft_filter_def add_mset_commute)
  have h5: "\<forall>s\<in>set (exclude_patterns villa_loft_filter). \<exists>p. re_compile example_env s = Inr p"
    by (simp add: example_env_fields)
  have h6: "get_new_hotelitems example_env example_search (villa_loft_filter\<lparr>exclude_patterns := []\<rparr>)
         (DataStore_init ''store.json'') = (Inr unfiltered_result, first_store)"
    using unfiltered_run by (simp add: villa_loft_filter_def no_filter_def)
  from T h0 have c0: "map (re_compile example_env) (exclude_patterns villa_loft_filter)
       = map Inr [''villa'', ''loft'']" by blast
  from T h1 h2 literal_search_loft(1)
  have c1: "first_match literal_search [''villa'', ''loft''] ''Cozy Loft'' = Some ''loft''"
    by blast
  from T h3 c1 have c2: "fst (classify literal_search [''villa'', ''loft''] cozy_loft
          (Result_init example_search, DataStore_init ''store.json''))
       = (Result_init example_search)\<lparr>num_excluded := 1\<rparr>"
    by (simp add: example_titles Result_init_def del: literal_search.simps first_match.simps)
  from T h4 villa_loft_run
  have c3: "get_new_hotelitems example_env example_search loft_villa_filter
      (DataStore_init ''store.json'') = (Inr first_result, first_store)"
    by blast
  have c4: "first_result = unfiltered_result\<lparr>num_excluded := 1, hotelitems := [studio_flat]\<rparr>"
    by (simp add: first_result_def unfiltered_result_def)
  from T h5 h6
  have c5: "get_new_hotelitems example_env example_search villa_loft_filter (DataStore_init ''store.json'')
       = (Inr (unfiltered_result\<lparr>num_excluded := int (length (filter
                 (\<lambda>x. \<exists>s\<in>set (exclude_patterns villa_loft_filter). \<exists>p.
                        re_compile example_env s = Inr p \<and> re_search example_env p (title x))
                 (hotelitems unfiltered_result))),
               hotelitems := filter
                 (\<lambda>x. \<not> (\<exists>s\<in>set (exclude_patterns villa_loft_filter). \<exists>p.
                        re_compile example_env s = Inr p \<and> re_search example_env p (title x)))
                 (hotelitems unfiltered_result)\<rparr>),
          first_store)"
    by blast
  have h7: "exclude_patterns villa_loft_filter = [''villa'', ''loft'']"
    by (simp add: villa_loft_filter_def)
  have h8: "re_compile example_env ''villa'' = Inr ''villa''"
    "re_compile example_env ''loft'' = Inr ''loft''"
    by (simp_all add: example_env_fields)
  from h0 c0 h1 literal_search_loft(1) literal_search_villa(1) c1 h3 c2 h4 villa_loft_run c3
    h7 h8 h6 c4 c5
  show ?thesis by blast
qed

section \<open>One title, one entry\<close>

lemma twin_page_items:
  "get_hotelitems_from_soup twin_page u = Yield cozy_loft (Yield cozy_loft_again Stop)"
  by (simp add: twin_page_def hotelitem_of_card_def strip_def isspace_def replace_nbsp_def
      cozy_loft_def cozy_loft_again_def)

lemma twin_run:
  "get_new_hotelitems twin_env example_search no_filter (DataStore_init ''store.json'')
     = (Inr twin_result, twin_store)"
proof -
  let ?r0 = "Result_init example_search"
  let ?d0 = "DataStore_init ''store.json''"
  let ?r1 = "?r0\<lparr>hotelitems := [cozy_loft]\<rparr>"
  have s1: "classify literal_search [] cozy_loft (?r0, ?d0) = (?r1, twin_store)"
    using classify_new[of ?d0 cozy_loft literal_search "[]" ?r0]
    by (simp add: dict_contains_def exclude_hotelitem_def DataStore_init_def Result_init_def
        twin_store_def example_titles)
  have s2: "classify literal_search [] cozy_loft_again (?r1, twin_store) = (twin_result, twin_store)"
    using classify_already[of twin_store cozy_loft_again literal_search "[]" ?r1]
    by (simp add: dict_contains_def twin_store_def twin_result_def Result_init_def cozy_loft_again_def)
  have "get_new_hotelitems twin_env example_search no_filter ?d0 =
      consume literal_search [] (Yield cozy_loft (Yield cozy_loft_again Stop)) (?r0, ?d0)"
    by (simp add: get_new_hotelitems_def twin_env_def no_filter_def twin_page_items gen_then_Stop)
  also have "\<dots> = (Inr twin_result, twin_store)"
    by (simp only: consume.simps s1 s2)
  finally show ?thesis .
qed

lemma fold_classify_first:
  "fold (classify rs ps) xs (r, ds) = (r', ds') \<Longrightarrow>
     map_of (data ds') t =
       (case map_of (data ds) t of Some v \<Rightarrow> Some v | None \<Rightarrow> find (\<lambda>x. title x = t) xs)
   \<and> (\<forall>b\<in>set (hotelitems r'). b \<in> set (hotelitems r) \<or>
         (\<not> dict_contains (data ds) (title b) \<and> find (\<lambda>x. title x = title b) xs = Some b))"
proof (induction xs arbitrary: r ds)
  case Nil
  then show ?case by (auto split: option.splits)
next
  case (Cons x xs)
  obtain r1 ds1 where s: "classify rs ps x (r, ds) = (r1, ds1)" by fastforce
  from Cons.prems s have f: "fold (classify rs ps) xs (r1, ds1) = (r', ds')" by simp
  note IH = Cons.IH[OF f]
  show ?case
  proof (cases "dict_contains (data ds) (title x)")
    case True
    with s have e: "ds1 = ds" "hotelitems r1 = hotelitems r"
      by (auto simp: classify_already)
    from True have k: "map_of (data ds) (title x) \<noteq> None" by (simp add: dict_contains_map_of)
    from IH True k show ?thesis unfolding e
      by (auto split: option.splits)
  next
    case False
    with s have d: "data ds1 = dict_setitem (data ds) (title x) x"
      by (auto simp: classify_def Let_def split: if_splits)
    from False s have h: "set (hotelitems r1) \<subseteq> insert x (set (hotelitems r))"
      by (auto simp: classify_def Let_def split: if_splits)
    from False have k: "map_of (data ds) (title x) = None" by (simp add: dict_contains_map_of)
    have m: "map_of (data ds') t =
       (case map_of (data ds) t of Some v \<Rightarrow> Some v | None \<Rightarrow> find (\<lambda>x. title x = t) (x # xs))"
      using IH k by (auto simp: d map_of_dict_setitem split: option.splits)
    have n: "b \<in> set (hotelitems r) \<or>
         (\<not> dict_contains (data ds) (title b) \<and> find (\<lambda>x. title x = title b) (x # xs) = Some b)"
      if b: "b \<in> set (hotelitems r')" for b
    proof -
      from IH b have "b \<in> set (hotelitems r1) \<or>
         (\<not> dict_contains (data ds1) (title b) \<and> find (\<lambda>x. title x = title b) xs = Some b)"
        by blast
      then show ?thesis
      proof
        assume "b \<in> set (hotelitems r1)"
        with h have "b = x \<or> b \<in> set (hotelitems r)" by auto
        with False show ?thesis by auto
      next
        assume "\<not> dict_contains (data ds1) (title b) \<and> find (\<lambda>x. title x = title b) xs = Some b"
        then show ?thesis by (auto simp: d dict_contains_setitem)
      qed
    qed
    from m n show ?thesis by blast
  qed
qed

lemma find_first:
  "\<forall>y\<in>set pre. \<not> P y \<Longrightarrow> P a \<Longrightarrow> find P (pre @ a # rest) = Some a"
  by (induction pre) auto

lemma dedup_run:
  assumes run: "get_new_hotelitems E sc fc ds = (Inr r, ds')"
    and sp: "get_soup E (search_url sc) = Inr sp"
    and xs: "yielded (get_hotelitems_from_soup sp (search_url sc)) = pre @ a # mid @ b # post"
    and first: "\<forall>y\<in>set pre. title y \<noteq> title a"
    and same: "title b = title a"
    and diff: "b \<noteq> a"
  shows "b \<notin> set (hotelitems r)"
    and "dict_get (data ds') (title a) =
      (if dict_contains (data ds) (title a) then dict_get (data ds) (title a) else Some a)"
proof -
  from run obtain ps sp' where
    sp': "get_soup E (search_url sc) = Inr sp'"
    and f: "fold (classify (re_search E) ps) (yielded (get_hotelitems_from_soup sp' (search_url sc)))
       (Result_init sc, ds) = (r, ds')"
    by (rule get_new_hotelitems_returns)
  from sp sp' have eq: "sp' = sp" by simp
  have fa: "find (\<lambda>x. title x = title a) (pre @ a # mid @ b # post) = Some a"
    using first by (intro find_first) auto
  note F = fold_classify_first[OF f, unfolded eq xs]
  show "b \<notin> set (hotelitems r)"
  proof
    assume "b \<in> set (hotelitems r)"
    with F[of "title b"] have "find (\<lambda>x. title x = title b) (pre @ a # mid @ b # post) = Some b"
      by (auto simp: Result_init_def)
    with fa same diff show False by simp
  qed
  show "dict_get (data ds') (title a) =
      (if dict_contains (data ds) (title a) then dict_get (data ds) (title a) else Some a)"
    using F[of "title a"] fa
    by (auto simp: dict_get_def dict_contains_map_of split: option.splits)
qed

text \<open>
  C2: for an extracted item whose title is already a key of the data store, the loop
  adds one to \<open>num_already_in_datastore\<close> and changes nothing else, whatever the
  patterns are: the store keeps its entry, no pattern decides anything, the item is
  not appended. In particular, of two extracted items \<open>a\<close> and, later, \<open>b\<close> with the
  same title, \<open>a\<close> the first with that title and \<open>b\<close> different from it, \<open>b\<close> is not
  among the new items, and the store holds under that title what it held before the
  run or else \<open>a\<close>.
\<close>

theorem dedup_by_title:
  "(dict_contains (data ds0) (title x0) \<longrightarrow>
      classify rs ps0 x0 (r0, ds0)
        = (r0\<lparr>num_already_in_datastore := num_already_in_datastore r0 + 1\<rparr>, ds0))
   \<and> (get_new_hotelitems E sc fc ds = (Inr r, ds')
        \<and> get_soup E (search_url sc) = Inr sp
        \<and> yielded (get_hotelitems_from_soup sp (search_url sc)) = pre @ a # mid @ b # post
        \<and> (\<forall>y\<in>set pre. title y \<noteq> title a) \<and> title b = title a \<and> b \<noteq> a
        \<longrightarrow> b \<notin> set (hotelitems r)
            \<and> dict_get (data ds') (title a) =
                (if dict_contains (data ds) (title a) then dict_get (data ds) (title a) else Some a))"
proof (intro conjI impI)
  assume "dict_contains (data ds0) (title x0)"
  then show "classify rs ps0 x0 (r0, ds0)
        = (r0\<lparr>num_already_in_datastore := num_already_in_datastore r0 + 1\<rparr>, ds0)"
    by (rule classify_already)
next
  assume a: "get_new_hotelitems E sc fc ds = (Inr r, ds')
        \<and> get_soup E (search_url sc) = Inr sp
        \<and> yielded (get_hotelitems_from_soup sp (search_url sc)) = pre @ a # mid @ b # post
        \<and> (\<forall>y\<in>set pre. title y \<noteq> title a) \<and> title b = title a \<and> b \<noteq> a"
  then show "b \<notin> set (hotelitems r)"
    using dedup_run(1)[of E sc fc ds r ds' sp pre a mid b post] by blast
  from a show "dict_get (data ds') (title a) =
                (if dict_contains (data ds) (title a) then dict_get (data ds) (title a) else Some a)"
    using dedup_run(2)[of E sc fc ds r ds' sp pre a mid b post] by blast
qed

theorem dedup_by_title_witness:
  "dict_contains (data twin_store) (title cozy_loft_again)
   \<and> classify literal_search [''loft''] cozy_loft_again (Result_init example_search, twin_store)
       = ((Result_init example_search)\<lparr>num_already_in_datastore := 1\<rparr>, twin_store)
   \<and> get_new_hotelitems twin_env example_search no_filter (DataStore_init ''store.json'')
       = (Inr twin_result, twin_store)
   \<and> get_soup twin_env (search_url example_search) = Inr twin_page
   \<and> yielded (get_hotelitems_from_soup twin_page (search_url example_search))
       = [] @ cozy_loft # [] @ cozy_loft_again # []
   \<and> title cozy_loft_again = title cozy_loft \<and> cozy_loft_again \<noteq> cozy_loft
   \<and> cozy_loft_again \<notin> set (hotelitems twin_result)
   \<and> cozy_loft \<in> set (hotelitems twin_result)
   \<and> dict_get (data twin_store) (title cozy_loft) = Some cozy_loft"
proof -
  have h0: "dict_contains (data twin_store) (title cozy_loft_again)"
    by (simp add: twin_store_def dict_contains_def cozy_loft_again_def)
  have h1: "get_soup twin_env (search_url example_search) = Inr twin_page"
    by (simp add: twin_env_def)
  have h2: "yielded (get_hotelitems_from_soup twin_page (search_url example_search))
      = [] @ cozy_loft # [] @ cozy_loft_again # []"
    by (simp add: twin_page_items)
  have h3: "title cozy_loft_again = title cozy_loft" "cozy_loft_again \<noteq> cozy_loft"
    by (simp_all add: cozy_loft_again_def cozy_loft_def)
  have h4: "\<not> dict_contains (data (DataStore_init ''store.json'')) (title cozy_loft)"
    by (simp add: DataStore_init_def dict_contains_def)
  have h5: "cozy_loft \<in> set (hotelitems twin_result)" by (simp add: twin_result_def)
  from dedup_by_title[where ?ds0.0 = twin_store and ?x0.0 = cozy_loft_again
      and rs = literal_search and ?ps0.0 = "[''loft'']" and ?r0.0 = "Result_init example_search"
      and E = twin_env and sc = example_search and fc = no_filter
      and ds = "DataStore_init ''store.json''" and r = twin_result and ds' = twin_store
      and sp = twin_page and pre = "[]" and a = cozy_loft and mid = "[]" and b = cozy_loft_again
      and post = "[]"]
    h0 h1 h2 h3 h4 h5 twin_run
  show ?thesis by (simp add: Result_init_def)
qed

section \<open>The file of the data store\<close>

lemma fold_setitem_distinct:
  "distinct (map fst (acc @ kvs)) \<Longrightarrow>
     fold (\<lambda>(k, v) d. dict_setitem d k v) kvs acc = acc @ kvs"
proof (induction kvs arbitrary: acc)
  case Nil
  show ?case by simp
next
  case (Cons kv kvs)
  obtain k v where kv: "kv = (k, v)" by (cases kv)
  from Cons.prems have n: "\<not> dict_contains acc k" by (auto simp: kv dict_contains_def)
  from Cons.prems have d: "distinct (map fst ((acc @ [(k, v)]) @ kvs))" by (simp add: kv)
  from Cons.IH[OF d] show ?case by (simp add: kv dict_setitem_new[OF n])
qed

lemma dict_of_pairs_distinct: "distinct (map fst kvs) \<Longrightarrow> dict_of_pairs kvs = kvs"
  using fold_setitem_distinct[of "[]" kvs] by (simp add: dict_of_pairs_def)

lemma HotelItem_of_json_asdict: "HotelItem_of_json (asdict x) = Loaded x"
proof -
  have "dict_of_pairs [(''url'', JStr (url x)), (''title'', JStr (title x)), (''price'', JStr (price x))]
      = [(''url'', JStr (url x)), (''title'', JStr (title x)), (''price'', JStr (price x))]"
    by (rule dict_of_pairs_distinct) simp
  then show ?thesis
    by (auto simp: HotelItem_of_json_def asdict_def dict_get_def)
qed

lemma load_items_asdict: "load_items (map (\<lambda>(k, x). (k, asdict x)) d) = Loaded d"
  by (induction d) (auto simp: HotelItem_of_json_asdict)

lemma json_of_data_keys: "map fst (map (\<lambda>(k, x). (k, asdict x)) d) = map fst d"
  by (induction d) auto

text \<open>
  C6: \<open>open\<close> of a new store on a path where the system finds no file gives the empty
  dictionary and raises nothing. \<open>close\<close>, where the system lets the path be written,
  leaves at the path, whatever was there before, the JSON object with one member per
  key of the store, its value the object of the fields url, title and price; no other
  path changes. What \<open>close\<close> has written, \<open>open\<close> reads back.
\<close>

theorem store_open_missing_then_close:
  "(readable f p \<and> file_at f p = None \<longrightarrow>
      DataStore_open f (DataStore_init p) = Loaded \<lparr>path = p, data = []\<rparr>)
   \<and> (writable f (path ds) \<longrightarrow>
        DataStore_close f ds =
          Inr (f\<lparr>file_at := (file_at f)(path ds \<mapsto>
                 JSON (JObj (map (\<lambda>(k, x). (k, JObj [(''url'', JStr (url x)),
                                                     (''title'', JStr (title x)),
                                                     (''price'', JStr (price x))]))
                            (data ds))))\<rparr>))
   \<and> (writable f (path ds) \<and> readable f (path ds) \<and> distinct (map fst (data ds))
        \<and> DataStore_close f ds = Inr f'
        \<longrightarrow> DataStore_open f' (DataStore_init (path ds)) = Loaded ds)"
proof (intro conjI impI)
  assume "readable f p \<and> file_at f p = None"
  then show "DataStore_open f (DataStore_init p) = Loaded \<lparr>path = p, data = []\<rparr>"
    by (simp add: DataStore_open_def DataStore_init_def)
next
  assume "writable f (path ds)"
  then show "DataStore_close f ds =
          Inr (f\<lparr>file_at := (file_at f)(path ds \<mapsto>
                 JSON (JObj (map (\<lambda>(k, x). (k, JObj [(''url'', JStr (url x)),
                                                     (''title'', JStr (title x)),
                                                     (''price'', JStr (price x))]))
                            (data ds))))\<rparr>)"
    by (simp add: DataStore_close_def json_of_data_def asdict_def)
next
  assume a: "writable f (path ds) \<and> readable f (path ds) \<and> distinct (map fst (data ds))
        \<and> DataStore_close f ds = Inr f'"
  then have f': "f' = f\<lparr>file_at := (file_at f)(path ds \<mapsto> JSON (json_of_data (data ds)))\<rparr>"
    by (auto simp: DataStore_close_def)
  from a have "distinct (map fst (map (\<lambda>(k, x). (k, asdict x)) (data ds)))"
    by (simp only: json_of_data_keys)
  then have "dict_of_pairs (map (\<lambda>(k, x). (k, asdict x)) (data ds))
      = map (\<lambda>(k, x). (k, asdict x)) (data ds)"
    by (rule dict_of_pairs_distinct)
  with a show "DataStore_open f' (DataStore_init (path ds)) = Loaded ds"
    by (simp add: f' DataStore_open_def DataStore_init_def json_of_data_def load_items_asdict)
qed

theorem store_open_missing_then_close_witness:
  "readable empty_fs ''store.json'' \<and> file_at empty_fs ''store.json'' = None
   \<and> DataStore_open empty_fs (DataStore_init ''store.json'')
       = Loaded \<lparr>path = ''store.json'', data = []\<rparr>
   \<and> writable stale_fs (path first_store) \<and> readable stale_fs (path first_store)
   \<and> file_at stale_fs (path first_store) = Some NotJSON
   \<and> distinct (map fst (data first_store))
   \<and> DataStore_close empty_fs first_store
       = Inr (empty_fs\<lparr>file_at := (file_at empty_fs)(''store.json'' \<mapsto> JSON first_store_json)\<rparr>)
   \<and> DataStore_close stale_fs first_store
       = Inr (stale_fs\<lparr>file_at := (file_at stale_fs)(''store.json'' \<mapsto> JSON first_store_json)\<rparr>)
   \<and> DataStore_open (stale_fs\<lparr>file_at := (file_at stale_fs)(''store.json'' \<mapsto> JSON first_store_json)\<rparr>)
         (DataStore_init ''store.json'') = Loaded first_store"
proof -
  have h0: "readable empty_fs ''store.json'' \<and> file_at empty_fs ''store.json'' = None"
    by (simp add: empty_fs_def)
  have h1: "writable empty_fs (path first_store)" by (simp add: empty_fs_def)
  have h2: "writable stale_fs (path first_store)" "readable stale_fs (path first_store)"
    by (simp_all add: stale_fs_def)
  have h3: "file_at stale_fs (path first_store) = Some NotJSON"
    by (simp add: stale_fs_def first_store_def)
  have h4: "distinct (map fst (data first_store))" by (simp add: first_store_def)
  have j: "JObj (map (\<lambda>(k, x). (k, JObj [(''url'', JStr (url x)), (''title'', JStr (title x)),
                                         (''price'', JStr (price x))])) (data first_store))
      = first_store_json"
    by (simp add: first_store_def first_store_json_def cozy_loft_def studio_flat_def)
  have p: "path first_store = ''store.json''" by (simp add: first_store_def)
  from store_open_missing_then_close[where f = empty_fs and p = "''store.json''"
      and ds = first_store] h0 h1
  have c1: "DataStore_open empty_fs (DataStore_init ''store.json'')
       = Loaded \<lparr>path = ''store.json'', data = []\<rparr>"
    and c2: "DataStore_close empty_fs first_store
       = Inr (empty_fs\<lparr>file_at := (file_at empty_fs)(''store.json'' \<mapsto> JSON first_store_json)\<rparr>)"
    unfolding j p by blast+
  note T = store_open_missing_then_close[where f = stale_fs and ds = first_store
      and f' = "stale_fs\<lparr>file_at := (file_at stale_fs)(''store.json'' \<mapsto> JSON first_store_json)\<rparr>"]
  from T h2 have c3: "DataStore_close stale_fs first_store
       = Inr (stale_fs\<lparr>file_at := (file_at stale_fs)(''store.json'' \<mapsto> JSON first_store_json)\<rparr>)"
    unfolding j p by blast
  from T h2 h4 c3
  have c4: "DataStore_open (stale_fs\<lparr>file_at := (file_at stale_fs)(''store.json'' \<mapsto> JSON first_store_json)\<rparr>)
         (DataStore_init ''store.json'') = Loaded first_store"
    unfolding p by blast
  from h0 c1 h2 h3 h4 c2 c3 c4 show ?thesis by blast
qed

section \<open>Properties of the notifier\<close>

lemma PushoverConfig_of_dict_valid:
  assumes "dict_get cd ''token'' \<noteq> None" and "dict_get cd ''user'' \<noteq> None"
    and "set (map fst cd) \<subseteq> {''token'', ''user'', ''device''}"
  shows "\<exists>c. PushoverConfig_of_dict cd = Inr c"
  using assms by (auto simp: PushoverConfig_of_dict_def split: option.splits)

lemma PushoverConfig_of_dict_invalid:
  assumes "dict_get cd ''token'' = None \<or> dict_get cd ''user'' = None
    \<or> \<not> set (map fst cd) \<subseteq> {''token'', ''user'', ''device''}"
  shows "PushoverConfig_of_dict cd = Inl TypeError"
  using assms by (auto simp: PushoverConfig_of_dict_def split: option.splits)

lemma send_notification_message:
  assumes "hotelitems r \<noteq> []"
  shows "map (\<lambda>ps. dict_get ps ''message'') (snd (send_notification post c r))
     = [Some (message r (hd (hotelitems r)))]"
proof -
  from assms obtain x xs where e: "hotelitems r = x # xs" by (cases "hotelitems r") auto
  show ?thesis
    by (simp add: send_notification_def e Let_def dict_get_def map_of_dict_setitem)
qed

lemma send_notification_empty:
  "hotelitems r = [] \<Longrightarrow> send_notification post c r = (Some IndexError, [])"
  by (simp add: send_notification_def)

lemma tasks_messages:
  "map (\<lambda>ps. dict_get ps ''message'')
     (concat (map snd (map (send_notification post c) (filter (\<lambda>r. hotelitems r \<noteq> []) results))))
   = map (\<lambda>r. Some (message r (hd (hotelitems r)))) (filter (\<lambda>r. hotelitems r \<noteq> []) results)"
proof (induction results)
  case Nil
  show ?case by simp
next
  case (Cons r results)
  show ?case
  proof (cases "hotelitems r = []")
    case True
    with Cons.IH show ?thesis by simp
  next
    case False
    from send_notification_message[OF False, of post c] Cons.IH False show ?thesis by simp
  qed
qed

lemma send_notifications_messages:
  assumes "PushoverConfig_of_dict cd = Inr c"
  shows "map (\<lambda>ps. dict_get ps ''message'') (snd (send_notifications post results cd))
     = map (\<lambda>r. Some (message r (hd (hotelitems r)))) (filter (\<lambda>r. hotelitems r \<noteq> []) results)"
  using tasks_messages[of post c results] by (simp add: send_notifications_def assms Let_def)

text \<open>
  C7: with a provider configuration that has a token and a user (and no key that is
  no field), \<open>send_notifications\<close> posts one request for each result with new items,
  in their order, and none for a result without: taking such a result out of the
  batch changes nothing. The message of a request states the number of new items of
  its result and the name of the search, and links the url and the title of the first
  new item; nothing of a later item enters it.
\<close>

theorem notify_first_item_only:
  assumes "dict_get cd ''token'' \<noteq> None"
    and "dict_get cd ''user'' \<noteq> None"
    and "set (map fst cd) \<subseteq> {''token'', ''user'', ''device''}"
  shows "length (snd (send_notifications post results cd))
           = length (filter (\<lambda>r. hotelitems r \<noteq> []) results)
    \<and> map (\<lambda>ps. dict_get ps ''message'') (snd (send_notifications post results cd))
        = map (\<lambda>r. Some (''<b>Found '' @ str_nat (length (hotelitems r)) @ '' new ad''
                   @ (if length (hotelitems r) = 1 then [] else ''s'')
                   @ '' for '' @ name (search_config r) @ ''</b>''
                   @ [CHR 0x0A]
                   @ ''<a href='' @ [CHR 0x22] @ url (hd (hotelitems r)) @ [CHR 0x22] @ ''>''
                   @ title (hd (hotelitems r)) @ ''</a>''))
            (filter (\<lambda>r. hotelitems r \<noteq> []) results)
    \<and> (hotelitems r = [] \<longrightarrow>
          send_notifications post (before @ r # after) cd
            = send_notifications post (before @ after) cd)"
proof -
  from PushoverConfig_of_dict_valid[OF assms] obtain c where
    c: "PushoverConfig_of_dict cd = Inr c" by blast
  note m = send_notifications_messages[OF c, of post results]
  have l: "length (snd (send_notifications post results cd))
           = length (filter (\<lambda>r. hotelitems r \<noteq> []) results)"
    using arg_cong[OF m, of length] by simp
  have e: "hotelitems r = [] \<Longrightarrow>
          send_notifications post (before @ r # after) cd
            = send_notifications post (before @ after) cd"
    by (simp add: send_notifications_def c)
  from m l e show ?thesis by (simp add: message_def)
qed

lemma str_nat_2: "str_nat (Suc (Suc 0)) = ''2''"
  by (simp add: str_nat.simps[of "Suc (Suc 0)"])

theorem notify_first_item_only_witness:
  "dict_get valid_config ''token'' \<noteq> None \<and> dict_get valid_config ''user'' \<noteq> None
   \<and> set (map fst valid_config) \<subseteq> {''token'', ''user'', ''device''}
   \<and> hotelitems (Result_init example_search) = []
   \<and> hotelitems unfiltered_result = [cozy_loft, studio_flat]
   \<and> length (snd (send_notifications post_ok [Result_init example_search, unfiltered_result]
         valid_config)) = 1
   \<and> map (\<lambda>ps. dict_get ps ''message'')
        (snd (send_notifications post_ok [Result_init example_search, unfiltered_result]
           valid_config))
       = [Some two_ads_message]
   \<and> send_notifications post_ok ([] @ Result_init example_search # [unfiltered_result]) valid_config
       = send_notifications post_ok ([] @ [unfiltered_result]) valid_config"
proof -
  have h1: "dict_get valid_config ''token'' \<noteq> None" "dict_get valid_config ''user'' \<noteq> None"
    "set (map fst valid_config) \<subseteq> {''token'', ''user'', ''device''}"
    by (simp_all add: valid_config_def dict_get_def)
  have h2: "hotelitems (Result_init example_search) = []" by (simp add: Result_init_def)
  have h3: "hotelitems unfiltered_result = [cozy_loft, studio_flat]"
    by (simp add: unfiltered_result_def)
  have h4: "name (search_config unfiltered_result) = ''city''"
    by (simp add: unfiltered_result_def example_search_def)
  have h5: "url cozy_loft = ''/hotel/cozy-loft''" "title cozy_loft = ''Cozy Loft''"
    by (simp_all add: cozy_loft_def)
  note T = notify_first_item_only[OF h1, of post_ok
      "[Result_init example_search, unfiltered_result]" "Result_init example_search" "[]"
      "[unfiltered_result]"]
  from T have "length (snd (send_notifications post_ok
      [Result_init example_search, unfiltered_result] valid_config))
      = length (filter (\<lambda>r. hotelitems r \<noteq> []) [Result_init example_search, unfiltered_result])"
    by blast
  then have c1: "length (snd (send_notifications post_ok
      [Result_init example_search, unfiltered_result] valid_config)) = 1"
    by (simp add: h2 h3)
  from T have "map (\<lambda>ps. dict_get ps ''message'')
        (snd (send_notifications post_ok [Result_init example_search, unfiltered_result]
           valid_config))
       = map (\<lambda>r. Some (''<b>Found '' @ str_nat (length (hotelitems r)) @ '' new ad''
                   @ (if length (hotelitems r) = 1 then [] else ''s'')
                   @ '' for '' @ name (search_config r) @ ''</b>''
                   @ [CHR 0x0A]
                   @ ''<a href='' @ [CHR 0x22] @ url (hd (hotelitems r)) @ [CHR 0x22] @ ''>''
                   @ title (hd (hotelitems r)) @ ''</a>''))
            (filter (\<lambda>r. hotelitems r \<noteq> []) [Result_init example_search, unfiltered_result])"
    by blast
  then have c2: "map (\<lambda>ps. dict_get ps ''message'')
        (snd (send_notifications post_ok [Result_init example_search, unfiltered_result]
           valid_config))
       = [Some two_ads_message]"
    by (simp add: h2 h3 h4 h5 str_nat_2 two_ads_message_def)
  from T h2 have c3: "send_notifications post_ok
        ([] @ Result_init example_search # [unfiltered_result]) valid_config
       = send_notifications post_ok ([] @ [unfiltered_result]) valid_config"
    by blast
  from h1 h2 h3 c1 c2 c3 show ?thesis by blast
qed

text \<open>
  C8: when the configuration dictionary has no token or no user, or has a key that is
  no field of \<open>PushoverConfig\<close>, \<open>send_notifications\<close> raises ValueError and has posted
  no request, whatever the results are.
\<close>

theorem notify_invalid_config:
  "dict_get cd ''token'' = None \<or> dict_get cd ''user'' = None
     \<or> \<not> set (map fst cd) \<subseteq> {''token'', ''user'', ''device''}
   \<Longrightarrow> send_notifications post results cd = (Some ValueError, [])"
  by (simp add: send_notifications_def PushoverConfig_of_dict_invalid)

theorem notify_invalid_config_witness:
  "dict_get no_token_config ''token'' = None
   \<and> hotelitems unfiltered_result \<noteq> []
   \<and> send_notifications post_ok [unfiltered_result] no_token_config = (Some ValueError, [])"
proof -
  have h: "dict_get no_token_config ''token'' = None"
    by (simp add: no_token_config_def dict_get_def)
  have n: "hotelitems unfiltered_result \<noteq> []" by (simp add: unfiltered_result_def)
  from notify_invalid_config[of no_token_config post_ok "[unfiltered_result]"] h n
  show ?thesis by blast
qed

section \<open>Extraction from a page with a malformed card\<close>

lemma malformed_card:
  "(card_h3 c = None
      \<or> (\<exists>h. card_h3 c = Some h \<and> (h3_a h = None \<or> h3_a h = Some None \<or> h3_div h = None))
      \<or> card_prices c = [])
   \<longleftrightarrow> (\<exists>e. hotelitem_of_card c = Inl e)"
  by (auto simp: hotelitem_of_card_def split: option.splits list.splits)

lemma soup_prefix:
  "\<forall>c'\<in>set pre. \<exists>x. hotelitem_of_card c' = Inr x \<Longrightarrow> hotelitem_of_card c = Inl e \<Longrightarrow>
     raised (get_hotelitems_from_soup (pre @ c # post) u) = Some e
   \<and> yielded (get_hotelitems_from_soup (pre @ c # post) u)
       = yielded (get_hotelitems_from_soup pre u)
   \<and> raised (get_hotelitems_from_soup pre u) = None
   \<and> map Inr (yielded (get_hotelitems_from_soup pre u)) = map hotelitem_of_card pre"
  by (induction pre) auto

lemma soup_raises:
  "c \<in> set sp \<Longrightarrow> hotelitem_of_card c = Inl e \<Longrightarrow>
     \<exists>e'. raised (get_hotelitems_from_soup sp u) = Some e'"
  by (induction sp) (auto split: sum.splits)

lemma run_raises:
  assumes "get_soup E (search_url sc) = Inr sp"
    and "raised (get_hotelitems_from_soup sp (search_url sc)) = Some e"
  shows "\<exists>e'. fst (get_new_hotelitems E sc fc ds) = Inl e'"
  using assms
  by (auto simp: get_new_hotelitems_def gen_then_Stop consume_fold split: sum.splits)

lemma run_on_prefix:
  assumes all: "\<forall>s\<in>set (exclude_patterns fc). \<exists>p. re_compile E s = Inr p"
    and sp: "get_soup E (search_url sc) = Inr sp"
    and r: "raised (get_hotelitems_from_soup sp (search_url sc)) = Some e"
    and y: "yielded (get_hotelitems_from_soup sp (search_url sc))
        = yielded (get_hotelitems_from_soup pre (search_url sc))"
  shows "fst (get_new_hotelitems E sc fc ds) = Inl e"
    and "snd (get_new_hotelitems E sc fc ds)
      = snd (get_new_hotelitems (E\<lparr>get_soup := \<lambda>u. Inr pre\<rparr>) sc fc ds)"
proof -
  from compile_patterns_total[OF all] obtain ps where
    ps: "compile_patterns (re_compile E) (exclude_patterns fc) = Inr ps" by blast
  have ps': "compile_patterns (re_compile (E\<lparr>get_soup := \<lambda>u. Inr pre\<rparr>)) (exclude_patterns fc) = Inr ps"
    using ps by simp
  have sp': "get_soup (E\<lparr>get_soup := \<lambda>u. Inr pre\<rparr>) (search_url sc) = Inr pre" by simp
  show "fst (get_new_hotelitems E sc fc ds) = Inl e"
    by (simp add: get_new_hotelitems_consume[OF ps sp] consume_fold r)
  show "snd (get_new_hotelitems E sc fc ds)
      = snd (get_new_hotelitems (E\<lparr>get_soup := \<lambda>u. Inr pre\<rparr>) sc fc ds)"
    by (simp add: get_new_hotelitems_consume[OF ps sp] get_new_hotelitems_consume[OF ps' sp']
        consume_fold y)
qed


lemma studio_card_item: "hotelitem_of_card studio_card = Inr studio_flat"
  by (simp add: studio_card_def hotelitem_of_card_def strip_def isspace_def replace_nbsp_def
      studio_flat_def)

lemma priceless_card_error: "hotelitem_of_card priceless_card = Inl IndexError"
  by (simp add: priceless_card_def hotelitem_of_card_def)

lemma broken_page_items:
  "get_hotelitems_from_soup broken_page u = Yield studio_flat (Raise IndexError)"
  by (simp add: broken_page_def studio_card_item priceless_card_error)

lemma broken_run:
  "get_new_hotelitems broken_env example_search no_filter (DataStore_init ''store.json'')
     = (Inl IndexError, studio_store)"
proof -
  let ?r0 = "Result_init example_search"
  let ?d0 = "DataStore_init ''store.json''"
  have s1: "classify literal_search [] studio_flat (?r0, ?d0)
      = (?r0\<lparr>hotelitems := [studio_flat]\<rparr>, studio_store)"
    using classify_new[of ?d0 studio_flat literal_search "[]" ?r0]
    by (simp add: dict_contains_def exclude_hotelitem_def DataStore_init_def Result_init_def
        studio_store_def example_titles)
  have "get_new_hotelitems broken_env example_search no_filter ?d0 =
      consume literal_search [] (Yield studio_flat (Raise IndexError)) (?r0, ?d0)"
    by (simp add: get_new_hotelitems_def broken_env_def no_filter_def broken_page_items gen_then_Stop)
  also have "\<dots> = (Inl IndexError, studio_store)"
    by (simp only: consume.simps s1)
  finally show ?thesis .
qed

text \<open>
  C9, as the claim states it, fails: on a page whose second card has no price element
  the generator has yielded the item of the first card before it raises, and
  \<open>get_new_hotelitems\<close> has put that item into the data store when the exception
  leaves it.
\<close>

theorem extraction_partial_results:
  "get_hotelitems_from_soup broken_page (search_url example_search)
       = Yield studio_flat (Raise IndexError)
   \<and> get_new_hotelitems broken_env example_search no_filter (DataStore_init ''store.json'')
       = (Inl IndexError, \<lparr>path = ''store.json'', data = [(''Studio Flat'', studio_flat)]\<rparr>)"
  using broken_run by (simp add: broken_page_items studio_store_def)

text \<open>
  C9, amended: a card without a heading, without a link or a \<open>href\<close> in the heading,
  without a text block in the heading or without a price element makes the generator
  raise; the card is not skipped and no card after it is read. When it is the first
  such card of the page, the generator has yielded the items of the cards before it,
  in order, and then raises the exception of that card; \<open>get_new_hotelitems\<close> raises
  and returns no result, and it leaves the data store as a run on the cards before
  that card leaves it.
\<close>

theorem extraction_stops_at_malformed_card:
  assumes "card_h3 c = None
      \<or> (\<exists>h. card_h3 c = Some h \<and> (h3_a h = None \<or> h3_a h = Some None \<or> h3_div h = None))
      \<or> card_prices c = []"
    and "\<forall>c'\<in>set pre. \<not> (card_h3 c' = None
      \<or> (\<exists>h. card_h3 c' = Some h \<and> (h3_a h = None \<or> h3_a h = Some None \<or> h3_div h = None))
      \<or> card_prices c' = [])"
  shows "\<exists>e. hotelitem_of_card c = Inl e
     \<and> raised (get_hotelitems_from_soup (pre @ c # post) u) = Some e
     \<and> map Inr (yielded (get_hotelitems_from_soup (pre @ c # post) u)) = map hotelitem_of_card pre
     \<and> (c \<in> set sp \<longrightarrow> raised (get_hotelitems_from_soup sp u) \<noteq> None)
     \<and> (get_soup E (search_url sc) = Inr (pre @ c # post) \<longrightarrow>
          (\<exists>e'. fst (get_new_hotelitems E sc fc ds) = Inl e'))
     \<and> (get_soup E (search_url sc) = Inr (pre @ c # post)
          \<and> (\<forall>s\<in>set (exclude_patterns fc). \<exists>p. re_compile E s = Inr p) \<longrightarrow>
          fst (get_new_hotelitems E sc fc ds) = Inl e
          \<and> snd (get_new_hotelitems E sc fc ds)
              = snd (get_new_hotelitems (E\<lparr>get_soup := \<lambda>u. Inr pre\<rparr>) sc fc ds))"
proof -
  from assms(1) obtain e where e: "hotelitem_of_card c = Inl e"
    unfolding malformed_card by blast
  have w: "\<forall>c'\<in>set pre. \<exists>x. hotelitem_of_card c' = Inr x"
  proof
    fix c' assume "c' \<in> set pre"
    with assms(2) have "\<not> (\<exists>e. hotelitem_of_card c' = Inl e)"
      unfolding malformed_card[symmetric] by blast
    then show "\<exists>x. hotelitem_of_card c' = Inr x" by (cases "hotelitem_of_card c'") auto
  qed
  note P = soup_prefix[OF w e, of post]
  have a: "raised (get_hotelitems_from_soup (pre @ c # post) u) = Some e"
    and b: "map Inr (yielded (get_hotelitems_from_soup (pre @ c # post) u)) = map hotelitem_of_card pre"
    using P[of u] by simp_all
  have g: "c \<in> set sp \<longrightarrow> raised (get_hotelitems_from_soup sp u) \<noteq> None"
    using soup_raises[OF _ e, of sp u] by auto
  have h: "get_soup E (search_url sc) = Inr (pre @ c # post) \<longrightarrow>
          (\<exists>e'. fst (get_new_hotelitems E sc fc ds) = Inl e')"
    using run_raises[of E sc "pre @ c # post" e fc ds] P[of "search_url sc"] by blast
  have i: "get_soup E (search_url sc) = Inr (pre @ c # post)
          \<and> (\<forall>s\<in>set (exclude_patterns fc). \<exists>p. re_compile E s = Inr p) \<longrightarrow>
          fst (get_new_hotelitems E sc fc ds) = Inl e
          \<and> snd (get_new_hotelitems E sc fc ds)
              = snd (get_new_hotelitems (E\<lparr>get_soup := \<lambda>u. Inr pre\<rparr>) sc fc ds)"
    using run_on_prefix[of fc E sc "pre @ c # post" e pre ds] P[of "search_url sc"] by blast
  from e a b g h i show ?thesis by blast
qed

theorem extraction_stops_at_malformed_card_witness:
  "card_prices priceless_card = []
   \<and> card_h3 studio_card
       = Some (Heading (Some (Some ''/hotel/studio-flat'')) (Some ''Studio Flat''))
   \<and> card_prices studio_card = [''$80'', ''$95'']
   \<and> broken_page = [studio_card] @ priceless_card # []
   \<and> get_soup broken_env (search_url example_search) = Inr broken_page
   \<and> exclude_patterns no_filter = []
   \<and> raised (get_hotelitems_from_soup broken_page (search_url example_search)) = Some IndexError
   \<and> map Inr (yielded (get_hotelitems_from_soup broken_page (search_url example_search)))
       = [Inr studio_flat]
   \<and> fst (get_new_hotelitems broken_env example_search no_filter (DataStore_init ''store.json''))
       = Inl IndexError
   \<and> snd (get_new_hotelitems broken_env example_search no_filter (DataStore_init ''store.json''))
       = snd (get_new_hotelitems (broken_env\<lparr>get_soup := \<lambda>u. Inr [studio_card]\<rparr>) example_search
               no_filter (DataStore_init ''store.json''))"
proof -
  have h1: "card_h3 priceless_card = None
      \<or> (\<exists>h. card_h3 priceless_card = Some h
            \<and> (h3_a h = None \<or> h3_a h = Some None \<or> h3_div h = None))
      \<or> card_prices priceless_card = []"
    by (simp add: priceless_card_def)
  have h2: "\<forall>c'\<in>set [studio_card]. \<not> (card_h3 c' = None
      \<or> (\<exists>h. card_h3 c' = Some h \<and> (h3_a h = None \<or> h3_a h = Some None \<or> h3_div h = None))
      \<or> card_prices c' = [])"
    by (simp add: studio_card_def)
  have h3: "broken_page = [studio_card] @ priceless_card # []" by (simp add: broken_page_def)
  have h4: "get_soup broken_env (search_url example_search) = Inr ([studio_card] @ priceless_card # [])"
    by (simp add: broken_env_def broken_page_def)
  have h5: "\<forall>s\<in>set (exclude_patterns no_filter). \<exists>p. re_compile broken_env s = Inr p"
    by (simp add: no_filter_def)
  from extraction_stops_at_malformed_card[OF h1 h2, of "[]" "search_url example_search"
      broken_page broken_env example_search no_filter "DataStore_init ''store.json''"]
  obtain e where e: "hotelitem_of_card priceless_card = Inl e"
    and c1: "raised (get_hotelitems_from_soup ([studio_card] @ priceless_card # [])
        (search_url example_search)) = Some e"
    and c2: "map Inr (yielded (get_hotelitems_from_soup ([studio_card] @ priceless_card # [])
        (search_url example_search))) = map hotelitem_of_card [studio_card]"
    and c3: "get_soup broken_env (search_url example_search) = Inr ([studio_card] @ priceless_card # [])
          \<and> (\<forall>s\<in>set (exclude_patterns no_filter). \<exists>p. re_compile broken_env s = Inr p) \<longrightarrow>
          fst (get_new_hotelitems broken_env example_search no_filter (DataStore_init ''store.json''))
            = Inl e
          \<and> snd (get_new_hotelitems broken_env example_search no_filter (DataStore_init ''store.json''))
              = snd (get_new_hotelitems (broken_env\<lparr>get_soup := \<lambda>u. Inr [studio_card]\<rparr>)
                      example_search no_filter (DataStore_init ''store.json''))"
    by blast
  from e have e': "e = IndexError" by (simp add: priceless_card_error)
  from c3 h4 h5 have c4: "fst (get_new_hotelitems broken_env example_search no_filter
        (DataStore_init ''store.json'')) = Inl e
      \<and> snd (get_new_hotelitems broken_env example_search no_filter (DataStore_init ''store.json''))
          = snd (get_new_hotelitems (broken_env\<lparr>get_soup := \<lambda>u. Inr [studio_card]\<rparr>)
                  example_search no_filter (DataStore_init ''store.json''))"
    by blast
  have c2': "map Inr (yielded (get_hotelitems_from_soup broken_page (search_url example_search)))
       = [Inr studio_flat]"
    using c2 by (simp add: h3 studio_card_item)
  from h1 have h1': "card_prices priceless_card = []" by (simp add: priceless_card_def)
  have h6: "card_h3 studio_card
       = Some (Heading (Some (Some ''/hotel/studio-flat'')) (Some ''Studio Flat''))"
    "card_prices studio_card = [''$80'', ''$95'']"
    by (simp_all add: studio_card_def)
  have h7: "exclude_patterns no_filter = []" by (simp add: no_filter_def)
  from h1' h6 h3 h4 h7 c1 c2' c4 show ?thesis unfolding e' h3[symmetric] by blast
qed

end
